theory Spec2Isabelle
  imports Complex_Main "HOL-Library.Sublist"
begin

section \<open>Python values\<close>

text \<open>
  A Python \<^verbatim>\<open>str\<close> is a sequence of code points and \<^verbatim>\<open>len\<close> counts code points.
  The glyph tables of \<^verbatim>\<open>src/cli/agent-stream.py\<close> hold code points above 255, so a
  string is a list of code points; \<open>str\<close> embeds an ASCII literal.
\<close>

type_synonym pystr = "nat list"

definition str :: "string \<Rightarrow> pystr" where
  "str s = map of_char s"

text \<open>
  What \<^verbatim>\<open>json.loads\<close> returns. An object is the insertion-ordered list of its items;
  \<^verbatim>\<open>dict.get\<close> reads the first item of a key (a Python dict holds one item per key).
  A finite float is the rational it denotes; the constants \<^verbatim>\<open>NaN\<close> and
  \<^verbatim>\<open>Infinity\<close>, which JSON does not have, are not represented.
\<close>

datatype json =
    JNull
  | JBool bool
  | JInt int
  | JFloat rat
  | JStr pystr
  | JArr "json list"
  | JObj "(pystr \<times> json) list"

datatype exn = AttributeError | TypeError | ValueError | CursesError

text \<open>\<^verbatim>\<open>x.get(k)\<close>: only a dict has the method.\<close>

fun dict_get :: "json \<Rightarrow> pystr \<Rightarrow> exn + json option" where
  "dict_get (JObj kvs) k = Inr (map_of kvs k)"
| "dict_get _ k = Inl AttributeError"

text \<open>\<^verbatim>\<open>x.get(k, d)\<close>.\<close>

definition dict_get_default :: "json \<Rightarrow> pystr \<Rightarrow> json \<Rightarrow> exn + json" where
  "dict_get_default x k d =
     (case dict_get x k of
        Inl e \<Rightarrow> Inl e
      | Inr None \<Rightarrow> Inr d
      | Inr (Some v) \<Rightarrow> Inr v)"

text \<open>Truth value of a JSON value in a condition.\<close>

fun truthy :: "json \<Rightarrow> bool" where
  "truthy JNull = False"
| "truthy (JBool b) = b"
| "truthy (JInt i) = (i \<noteq> 0)"
| "truthy (JFloat r) = (r \<noteq> 0)"
| "truthy (JStr s) = (s \<noteq> [])"
| "truthy (JArr xs) = (xs \<noteq> [])"
| "truthy (JObj kvs) = (kvs \<noteq> [])"

text \<open>
  Dictionary keys. Python compares and hashes \<^verbatim>\<open>True\<close>, \<^verbatim>\<open>1\<close> and \<^verbatim>\<open>1.0\<close> alike,
  so a number or boolean key is the number it denotes; a list or dict is unhashable and
  using it as a key raises \<^verbatim>\<open>TypeError\<close>.
\<close>

datatype hkey = KNone | KNum rat | KStr pystr

fun hash_key :: "json \<Rightarrow> exn + hkey" where
  "hash_key JNull = Inr KNone"
| "hash_key (JBool b) = Inr (KNum (if b then 1 else 0))"
| "hash_key (JInt i) = Inr (KNum (of_int i))"
| "hash_key (JFloat r) = Inr (KNum r)"
| "hash_key (JStr s) = Inr (KStr s)"
| "hash_key (JArr xs) = Inl TypeError"
| "hash_key (JObj kvs) = Inl TypeError"

text \<open>
  \<^verbatim>\<open>defaultdict(int)\<close> as the insertion-ordered list of its items;
  \<open>bump k d\<close> is \<^verbatim>\<open>d[k] += 1\<close>.
\<close>

type_synonym counter = "(hkey \<times> nat) list"

fun bump :: "hkey \<Rightarrow> counter \<Rightarrow> counter" where
  "bump k [] = [(k, 1)]"
| "bump k ((k', c) # d) = (if k = k' then (k', c + 1) # d else (k', c) # bump k d)"

text \<open>\<^verbatim>\<open>d[k]\<close> read as a number: a missing key counts 0.\<close>

definition count_of :: "counter \<Rightarrow> hkey \<Rightarrow> nat" where
  "count_of d k = (case map_of d k of None \<Rightarrow> 0 | Some c \<Rightarrow> c)"

text \<open>
  \<^verbatim>\<open>defaultdict(lambda: defaultdict(int))\<close>. \<open>touch a m\<close> is the read \<^verbatim>\<open>m[a]\<close>,
  which inserts an empty inner counter for a missing key; \<open>bump_inner a t m\<close> then is
  \<^verbatim>\<open>m[a][t] += 1\<close> on the entry the read has made sure of.
\<close>

type_synonym counter2 = "(hkey \<times> counter) list"

fun touch :: "hkey \<Rightarrow> counter2 \<Rightarrow> counter2" where
  "touch a [] = [(a, [])]"
| "touch a ((a', d) # m) = (if a = a' then (a', d) # m else (a', d) # touch a m)"

fun bump_inner :: "hkey \<Rightarrow> hkey \<Rightarrow> counter2 \<Rightarrow> counter2" where
  "bump_inner a t [] = []"
| "bump_inner a t ((a', d) # m) =
     (if a = a' then (a', bump t d) # m else (a', d) # bump_inner a t m)"

section \<open>The append-log viewer: \<^verbatim>\<open>AgentEventStream\<close>\<close>

record stream =
  server_url :: pystr
  events :: "json list"
  stats :: counter
  agent_stats :: counter2
  event_queue :: "json list"
  running :: bool
  filter_app :: "pystr option"
  filter_type :: "pystr option"
  show_details :: bool
  pause :: bool

text \<open>\<^verbatim>\<open>AgentEventStream.__init__\<close>.\<close>

definition new_stream :: "pystr \<Rightarrow> stream" where
  "new_stream url =
     \<lparr> server_url = url, events = [], stats = [], agent_stats = [], event_queue = [],
       running = True, filter_app = None, filter_type = None, show_details = False,
       pause = False \<rparr>"

text \<open>
  One filter line of \<^verbatim>\<open>process_event\<close>:
  \<^verbatim>\<open>if self.filter_app and event.get("app") != self.filter_app: return\<close>.
  The result says whether the event is dropped. \<^verbatim>\<open>None\<close> and the empty string are
  both false, and then \<^verbatim>\<open>event.get\<close> is not evaluated.
\<close>

definition filter_drops :: "pystr option \<Rightarrow> pystr \<Rightarrow> json \<Rightarrow> exn + bool" where
  "filter_drops crit field event =
     (case crit of
        None \<Rightarrow> Inr False
      | Some s \<Rightarrow>
          if s = [] then Inr False
          else (case dict_get event field of
                  Inl e \<Rightarrow> Inl e
                | Inr v \<Rightarrow> Inr (v \<noteq> Some (JStr s))))"

text \<open>
  The statistics lines of \<^verbatim>\<open>process_event\<close> (and the whole of
  \<^verbatim>\<open>CursesAgentStream.update_stats\<close>, which has the same four statements) on the two
  counters. A statement that raises leaves what the earlier statements have written.
\<close>

definition update_counters :: "json \<Rightarrow> counter \<times> counter2 \<Rightarrow> exn option \<times> counter \<times> counter2" where
  "update_counters event cs =
     (let s1 = bump (KStr (str ''total'')) (fst cs); a0 = snd cs in
      case dict_get_default event (str ''event_type'') (JStr (str ''unknown'')) of
        Inl e \<Rightarrow> (Some e, s1, a0)
      | Inr et \<Rightarrow>
     (case hash_key et of
        Inl e \<Rightarrow> (Some e, s1, a0)
      | Inr etk \<Rightarrow>
     (let s2 = bump etk s1 in
      case dict_get_default event (str ''payload'') (JObj []) of
        Inl e \<Rightarrow> (Some e, s2, a0)
      | Inr payload \<Rightarrow>
     (case dict_get_default payload (str ''agent_type'') (JStr (str ''unknown'')) of
        Inl e \<Rightarrow> (Some e, s2, a0)
      | Inr agent_type \<Rightarrow>
     (case dict_get_default event (str ''app'') (JStr (str ''unknown'')) of
        Inl e \<Rightarrow> (Some e, s2, a0)
      | Inr app \<Rightarrow>
     (case hash_key app of
        Inl e \<Rightarrow> (Some e, s2, a0)
      | Inr ak \<Rightarrow>
     (let a1 = touch ak a0 in
      case hash_key agent_type of
        Inl e \<Rightarrow> (Some e, s2, a1)
      | Inr tk \<Rightarrow> (None, s2, bump_inner ak tk a1))))))))"

text \<open>\<^verbatim>\<open>AgentEventStream.process_event\<close>; the window holds 1000 events.\<close>

definition process_event :: "stream \<Rightarrow> json \<Rightarrow> exn option \<times> stream" where
  "process_event st event =
     (if pause st then (None, st)
      else case filter_drops (filter_app st) (str ''app'') event of
        Inl e \<Rightarrow> (Some e, st)
      | Inr True \<Rightarrow> (None, st)
      | Inr False \<Rightarrow>
     (case filter_drops (filter_type st) (str ''event_type'') event of
        Inl e \<Rightarrow> (Some e, st)
      | Inr True \<Rightarrow> (None, st)
      | Inr False \<Rightarrow>
     (case update_counters event (stats st, agent_stats st) of
        (Some e, s, a) \<Rightarrow> (Some e, st\<lparr>stats := s, agent_stats := a\<rparr>)
      | (None, s, a) \<Rightarrow>
          (let es = events st @ [event] in
           (None, st\<lparr>stats := s, agent_stats := a,
                     event_queue := event_queue st @ [event],
                     events := (if length es > 1000 then tl es else es)\<rparr>)))))"

text \<open>The loop \<^verbatim>\<open>for event in ...: self.process_event(event)\<close>: an exception ends it.\<close>

fun process_events :: "stream \<Rightarrow> json list \<Rightarrow> exn option \<times> stream" where
  "process_events st [] = (None, st)"
| "process_events st (e # es) =
     (case process_event st e of
        (Some x, st') \<Rightarrow> (Some x, st')
      | (None, st') \<Rightarrow> process_events st' es)"

text \<open>
  \<^verbatim>\<open>for x in v\<close>: a list gives its elements, a dict its keys, a string its
  characters; nothing else is iterable.
\<close>

fun py_iter :: "json \<Rightarrow> exn + json list" where
  "py_iter (JArr xs) = Inr xs"
| "py_iter (JObj kvs) = Inr (map (\<lambda>kv. JStr (fst kv)) kvs)"
| "py_iter (JStr s) = Inr (map (\<lambda>c. JStr [c]) s)"
| "py_iter _ = Inl TypeError"

text \<open>\<^verbatim>\<open>AgentEventStream.handle_message\<close>.\<close>

definition handle_message :: "stream \<Rightarrow> json \<Rightarrow> exn option \<times> stream" where
  "handle_message st data =
     (case dict_get data (str ''type'') of
        Inl e \<Rightarrow> (Some e, st)
      | Inr t \<Rightarrow>
          if t = Some (JStr (str ''init'')) then
            (case dict_get_default data (str ''events'') (JArr []) of
               Inl e \<Rightarrow> (Some e, st)
             | Inr evs \<Rightarrow>
                 (case py_iter evs of
                    Inl e \<Rightarrow> (Some e, st)
                  | Inr es \<Rightarrow> process_events st es))
          else if t = Some (JStr (str ''event'')) then
            (case dict_get_default data (str ''data'') (JObj []) of
               Inl e \<Rightarrow> (Some e, st)
             | Inr event \<Rightarrow> process_event st event)
          else (None, st))"

text \<open>
  What is printed, and where. \<^verbatim>\<open>print\<close> writes to standard output; nothing in the
  viewers writes to standard error. The text of an exception is Python's, so a line made
  of one keeps the exception.
\<close>

datatype channel = Stdout | Stderr

datatype printed =
    Line pystr
  | DisplayError exn
  | PollError exn

type_synonym printout = "(channel \<times> printed) list"

definition RESET_COLOR :: pystr where
  "RESET_COLOR = 27 # str ''[0m''"

definition BOLD :: pystr where
  "BOLD = 27 # str ''[1m''"

definition DIM :: pystr where
  "DIM = 27 # str ''[2m''"

definition unknown_color :: pystr where
  "unknown_color = 27 # str ''[37m''"

definition AGENT_COLORS :: "(pystr \<times> pystr) list" where
  "AGENT_COLORS =
     [(str ''openai'', 27 # str ''[92m''),
      (str ''anthropic'', 27 # str ''[94m''),
      (str ''google'', 27 # str ''[93m''),
      (str ''cohere'', 27 # str ''[95m''),
      (str ''mistral'', 27 # str ''[96m''),
      (str ''deepseek'', 27 # str ''[91m''),
      (str ''langchain'', 27 # str ''[97m''),
      (str ''custom'', 27 # str ''[90m''),
      (str ''unknown'', unknown_color)]"

text \<open>
  A frame of the connection, as \<^verbatim>\<open>json.loads\<close> sees it: \<open>Malformed\<close> when it raises
  \<^verbatim>\<open>JSONDecodeError\<close>, else the value it returns.
\<close>

datatype frame = Malformed | Parsed json

definition invalid_message :: pystr where
  "invalid_message = unknown_color @ str ''Invalid message received'' @ RESET_COLOR"

text \<open>
  The loop \<^verbatim>\<open>async for message in websocket\<close> of
  \<^verbatim>\<open>AgentEventStream.connect_and_stream\<close>, over the frames one connection delivers.
  Only \<^verbatim>\<open>JSONDecodeError\<close> is caught inside the loop; any other exception leaves it,
  and the connection with it.
\<close>

fun receive :: "stream \<times> printout \<Rightarrow> frame list \<Rightarrow> exn option \<times> stream \<times> printout" where
  "receive (st, out) [] = (None, st, out)"
| "receive (st, out) (f # fs) =
     (if \<not> running st then (None, st, out)
      else case f of
        Malformed \<Rightarrow> receive (st, out @ [(Stdout, Line invalid_message)]) fs
      | Parsed data \<Rightarrow>
          (case handle_message st data of
             (Some e, st') \<Rightarrow> (Some e, st', out)
           | (None, st') \<Rightarrow> receive (st', out) fs))"

text \<open>The three tallies of the statistics: the total, the categories, the agents.\<close>

definition total_count :: "counter \<Rightarrow> nat" where
  "total_count d = count_of d (KStr (str ''total''))"

definition category_sum :: "counter \<Rightarrow> nat" where
  "category_sum d = sum_list (map snd (filter (\<lambda>kc. fst kc \<noteq> KStr (str ''total'')) d))"

definition agent_sum :: "counter2 \<Rightarrow> nat" where
  "agent_sum m = sum_list (map (\<lambda>ad. sum_list (map snd (snd ad))) m)"

subsection \<open>Formatting and the display thread\<close>

definition EVENT_TYPE_ICONS :: "(pystr \<times> pystr) list" where
  "EVENT_TYPE_ICONS =
     [(str ''llm_request'', [240, 376, 164, 8211]),
      (str ''llm_response'', [240, 376, 8217, 172]),
      (str ''tool_use'', [240, 376, 8221, 167]),
      (str ''function_call_start'', [226, 8211, 182, 239, 184]),
      (str ''function_call_complete'', [226, 339, 8230]),
      (str ''function_call_error'', [226, 338]),
      (str ''error'', [240, 376, 353, 168]),
      (str ''token_usage'', [240, 376, 170, 8482]),
      (str ''test'', [240, 376, 167, 170]),
      (str ''pre_tool_use'', [240, 376, 8221, 168]),
      (str ''post_tool_use'', [226, 339, 8221, 239, 184]),
      (str ''stop'', [240, 376, 8250, 8216]),
      (str ''custom'', [240, 376, 8220, 338])]"

text \<open>The glyph given to \<^verbatim>\<open>EVENT_TYPE_ICONS.get\<close> as its default.\<close>

definition default_icon :: pystr where
  "default_icon = [240, 376, 8220]"

definition bind_exn :: "exn + 'a \<Rightarrow> ('a \<Rightarrow> exn + 'b) \<Rightarrow> exn + 'b" where
  "bind_exn r f = (case r of Inl e \<Rightarrow> Inl e | Inr v \<Rightarrow> f v)"

text \<open>
  \<^verbatim>\<open>TABLE.get(k, d)\<close> on a table with string keys: the key is hashed first, so an
  unhashable one raises; a hashable key that is not in the table gives the default.
\<close>

definition table_get :: "(pystr \<times> 'a) list \<Rightarrow> json \<Rightarrow> 'a \<Rightarrow> exn + 'a" where
  "table_get tbl k d =
     (case hash_key k of
        Inl e \<Rightarrow> Inl e
      | Inr (KStr s) \<Rightarrow> Inr (case map_of tbl s of None \<Rightarrow> d | Some v \<Rightarrow> v)
      | Inr _ \<Rightarrow> Inr d)"

text \<open>
  \<^verbatim>\<open>datetime.fromisoformat(v).strftime("%H:%M:%S")\<close>. The parser is the standard
  library's: \<open>clock s\<close> is the formatted time of the string \<open>s\<close>, or \<open>None\<close> where
  \<^verbatim>\<open>fromisoformat\<close> raises \<^verbatim>\<open>ValueError\<close>. An argument that is not a string
  raises \<^verbatim>\<open>TypeError\<close>.
\<close>

definition fromisoformat :: "(pystr \<Rightarrow> pystr option) \<Rightarrow> json \<Rightarrow> exn + pystr" where
  "fromisoformat clock v =
     (case v of
        JStr s \<Rightarrow> (case clock s of None \<Rightarrow> Inl ValueError | Some hms \<Rightarrow> Inr hms)
      | _ \<Rightarrow> Inl TypeError)"

text \<open>
  \<^verbatim>\<open>str(v)\<close>, and \<^verbatim>\<open>{v}\<close> in an f-string: a string is itself; \<open>py_str\<close> is
  Python's text of any other value.
\<close>

definition to_str :: "(json \<Rightarrow> pystr) \<Rightarrow> json \<Rightarrow> pystr" where
  "to_str py_str v = (case v of JStr s \<Rightarrow> s | _ \<Rightarrow> py_str v)"

text \<open>\<^verbatim>\<open>sep.join(xs)\<close>.\<close>

fun join :: "pystr \<Rightarrow> pystr list \<Rightarrow> pystr" where
  "join sep [] = []"
| "join sep [x] = x"
| "join sep (x # y # zs) = x @ sep @ join sep (y # zs)"

text \<open>\<^verbatim>\<open>payload.items()\<close>.\<close>

fun py_items :: "json \<Rightarrow> exn + (pystr \<times> json) list" where
  "py_items (JObj kvs) = Inr kvs"
| "py_items _ = Inl AttributeError"

text \<open>The detail list of \<^verbatim>\<open>format_event\<close>: the first three items, but for the agent type.\<close>

definition details_of :: "(json \<Rightarrow> pystr) \<Rightarrow> (pystr \<times> json) list \<Rightarrow> pystr list" where
  "details_of py_str items =
     map (\<lambda>kv. fst kv @ str ''='' @ take 50 (to_str py_str (snd kv)))
       (filter (\<lambda>kv. fst kv \<noteq> str ''agent_type'') (take 3 items))"

text \<open>\<^verbatim>\<open>AgentEventStream.format_event\<close>.\<close>

definition format_event ::
  "(pystr \<Rightarrow> pystr option) \<Rightarrow> (json \<Rightarrow> pystr) \<Rightarrow> stream \<Rightarrow> json \<Rightarrow> exn + pystr" where
  "format_event clock py_str st event =
     bind_exn (dict_get_default event (str ''timestamp'') (JStr [])) (\<lambda>ts.
     bind_exn (fromisoformat clock ts) (\<lambda>timestamp.
     bind_exn (dict_get_default event (str ''app'') (JStr (str ''unknown''))) (\<lambda>app.
     bind_exn (dict_get_default event (str ''event_type'') (JStr (str ''unknown''))) (\<lambda>event_type.
     bind_exn (dict_get_default event (str ''summary'') (JStr [])) (\<lambda>summary.
     bind_exn (dict_get_default event (str ''payload'') (JObj [])) (\<lambda>payload.
     bind_exn (dict_get_default payload (str ''agent_type'') (JStr (str ''unknown''))) (\<lambda>agent_type.
     bind_exn (table_get AGENT_COLORS agent_type unknown_color) (\<lambda>color.
     bind_exn (table_get EVENT_TYPE_ICONS event_type default_icon) (\<lambda>icon.
     let line1 = DIM @ timestamp @ RESET_COLOR @ str '' ''
                 @ color @ BOLD @ str ''['' @ to_str py_str app @ str '']'' @ RESET_COLOR @ str '' ''
                 @ icon @ str '' '' @ to_str py_str event_type;
         line2 = (if truthy summary
                  then line1 @ str '' - '' @ DIM @ to_str py_str summary @ RESET_COLOR
                  else line1)
     in bind_exn (dict_get event (str ''payload'')) (\<lambda>p.
        if show_details st \<and> (case p of None \<Rightarrow> False | Some v \<Rightarrow> truthy v) then
          bind_exn (py_items payload) (\<lambda>items.
            let details = details_of py_str items in
            Inr (if details \<noteq> []
                 then line2 @ [10] @ str ''    '' @ DIM @ join (str '' | '') details @ RESET_COLOR
                 else line2))
        else Inr line2))))))))))"

text \<open>
  One round of \<^verbatim>\<open>run_display_thread\<close>: take the oldest queued event and print its
  line; an exception of the formatting is printed in its place.
\<close>

definition display_step ::
  "(pystr \<Rightarrow> pystr option) \<Rightarrow> (json \<Rightarrow> pystr) \<Rightarrow> stream \<times> printout \<Rightarrow> stream \<times> printout" where
  "display_step clock py_str so =
     (case so of (st, out) \<Rightarrow>
        (case event_queue st of
           [] \<Rightarrow> (st, out)
         | event # q \<Rightarrow>
             (case format_event clock py_str st event of
                Inl e \<Rightarrow> (st\<lparr>event_queue := q\<rparr>, out @ [(Stdout, DisplayError e)])
              | Inr line \<Rightarrow> (st\<lparr>event_queue := q\<rparr>, out @ [(Stdout, Line line)]))))"

section \<open>The dashboard viewer: \<^verbatim>\<open>CursesAgentStream\<close>\<close>

record curses_stream =
  c_server_url :: pystr
  c_events :: "json list"
  c_stats :: counter
  c_agent_stats :: counter2
  c_running :: bool
  c_filter_app :: "pystr option"
  c_filter_type :: "pystr option"
  c_show_details :: bool
  c_pause :: bool
  c_selected_index :: int

text \<open>\<^verbatim>\<open>CursesAgentStream.__init__\<close>.\<close>

definition new_curses_stream :: "pystr \<Rightarrow> curses_stream" where
  "new_curses_stream url =
     \<lparr> c_server_url = url, c_events = [], c_stats = [], c_agent_stats = [],
       c_running = True, c_filter_app = None, c_filter_type = None,
       c_show_details = False, c_pause = False, c_selected_index = 0 \<rparr>"

text \<open>
  The body of the loop over the frames in \<^verbatim>\<open>CursesAgentStream.connect_and_stream\<close>.
  The bare \<^verbatim>\<open>except: pass\<close> around it swallows every exception, of the decoding and
  of \<^verbatim>\<open>update_stats\<close> alike; the statements after the one that raised are skipped.
  The window holds 500 events.
\<close>

definition on_frame :: "curses_stream \<Rightarrow> frame \<Rightarrow> curses_stream" where
  "on_frame cs f =
     (case f of
        Malformed \<Rightarrow> cs
      | Parsed data \<Rightarrow>
          (case dict_get data (str ''type'') of
             Inl e \<Rightarrow> cs
           | Inr t \<Rightarrow>
               if t = Some (JStr (str ''event'')) then
                 (case dict_get_default data (str ''data'') (JObj []) of
                    Inl e \<Rightarrow> cs
                  | Inr event \<Rightarrow>
                      (let cs1 = cs\<lparr>c_events := c_events cs @ [event]\<rparr> in
                       case update_counters event (c_stats cs1, c_agent_stats cs1) of
                         (Some e, s, a) \<Rightarrow> cs1\<lparr>c_stats := s, c_agent_stats := a\<rparr>
                       | (None, s, a) \<Rightarrow>
                           (let cs2 = cs1\<lparr>c_stats := s, c_agent_stats := a\<rparr> in
                            if length (c_events cs2) > 500
                            then cs2\<lparr>c_events := tl (c_events cs2)\<rparr>
                            else cs2)))
               else cs))"

fun c_receive :: "curses_stream \<Rightarrow> frame list \<Rightarrow> curses_stream" where
  "c_receive cs [] = cs"
| "c_receive cs (f # fs) = (if \<not> c_running cs then cs else c_receive (on_frame cs f) fs)"

text \<open>
  \<^verbatim>\<open>CursesAgentStream.handle_input\<close> on the key read. The statistics window of the
  key \<^verbatim>\<open>s\<close> changes no field but for the read of \<^verbatim>\<open>self.stats['total']\<close>, which
  a \<^verbatim>\<open>defaultdict\<close> answers by inserting a missing key with the count 0.
\<close>

definition read_counter :: "hkey \<Rightarrow> counter \<Rightarrow> counter" where
  "read_counter k d = (if k \<in> fst ` set d then d else d @ [(k, 0)])"

definition handle_input :: "curses_stream \<Rightarrow> int \<Rightarrow> curses_stream" where
  "handle_input cs key =
     (if key = 113 then cs\<lparr>c_running := False\<rparr>
      else if key = 112 then cs\<lparr>c_pause := \<not> c_pause cs\<rparr>
      else if key = 100 then cs\<lparr>c_show_details := \<not> c_show_details cs\<rparr>
      else if key = 115 then cs\<lparr>c_stats := read_counter (KStr (str ''total'')) (c_stats cs)\<rparr>
      else cs)"

subsection \<open>Drawing\<close>

text \<open>\<^verbatim>\<open>xs[:n]\<close> and \<^verbatim>\<open>xs[n:]\<close>: a negative bound counts from the end.\<close>

definition py_take :: "int \<Rightarrow> 'a list \<Rightarrow> 'a list" where
  "py_take n xs = (if 0 \<le> n then take (nat n) xs else take (length xs - nat (- n)) xs)"

definition py_drop :: "int \<Rightarrow> 'a list \<Rightarrow> 'a list" where
  "py_drop n xs = (if 0 \<le> n then drop (nat n) xs else drop (length xs - nat (- n)) xs)"

text \<open>\<^verbatim>\<open>v[:n]\<close> on a value: strings and lists can be sliced.\<close>

fun slice_to :: "int \<Rightarrow> json \<Rightarrow> exn + json" where
  "slice_to n (JStr s) = Inr (JStr (py_take n s))"
| "slice_to n (JArr xs) = Inr (JArr (py_take n xs))"
| "slice_to n _ = Inl TypeError"

text \<open>\<^verbatim>\<open>len(v)\<close>.\<close>

fun py_len :: "json \<Rightarrow> exn + nat" where
  "py_len (JStr s) = Inr (length s)"
| "py_len (JArr xs) = Inr (length xs)"
| "py_len (JObj kvs) = Inr (length kvs)"
| "py_len _ = Inl TypeError"

text \<open>\<^verbatim>\<open>v + "..."\<close>: only a string can be added to a string.\<close>

fun py_add_str :: "json \<Rightarrow> pystr \<Rightarrow> exn + json" where
  "py_add_str (JStr s) t = Inr (JStr (s @ t))"
| "py_add_str _ t = Inl TypeError"

text \<open>The decimal digits of a count, as an f-string prints it.\<close>

function dec :: "nat \<Rightarrow> pystr" where
  "dec n = (if n < 10 then [48 + n] else dec (n div 10) @ [48 + n mod 10])"
  by pat_completeness auto
termination
  by (relation "measure id") auto

definition header :: pystr where
  "header = [240, 376, 353, 8364] @ str '' LIVE AGENT EVENT STREAM''"

definition footer :: pystr where
  "footer = str ''q:Quit | p:Pause | d:Details | f:Filter | s:Stats''"

definition color_map :: "(pystr \<times> nat) list" where
  "color_map =
     [(str ''openai'', 1), (str ''anthropic'', 2), (str ''google'', 3),
      (str ''cohere'', 4), (str ''mistral'', 5), (str ''deepseek'', 6),
      (str ''langchain'', 7), (str ''custom'', 7), (str ''unknown'', 7)]"

text \<open>The summary lines of \<^verbatim>\<open>draw_ui\<close>: the summary is cut to the width left.\<close>

definition add_summary :: "(json \<Rightarrow> pystr) \<Rightarrow> int \<Rightarrow> pystr \<Rightarrow> json \<Rightarrow> exn + pystr" where
  "add_summary py_str width line summary =
     (if truthy summary then
        (let remaining_width = width - int (length line) - 3 in
         bind_exn (py_len summary) (\<lambda>n.
         bind_exn (if int n > remaining_width
                   then bind_exn (slice_to (remaining_width - 3) summary)
                          (\<lambda>cut. py_add_str cut (str ''...''))
                   else Inr summary) (\<lambda>summary'.
         Inr (line @ str '' - '' @ to_str py_str summary'))))
      else Inr line)"

text \<open>The last cut of \<^verbatim>\<open>draw_ui\<close>: \<^verbatim>\<open>if len(line) > width - 1: line = line[:width-4] + "..."\<close>.\<close>

definition fit :: "int \<Rightarrow> pystr \<Rightarrow> pystr" where
  "fit width line =
     (if int (length line) > width - 1 then py_take (width - 4) line @ str ''...'' else line)"

text \<open>The line of one event before any cut, up to the category.\<close>

definition line_head ::
  "(pystr \<Rightarrow> pystr option) \<Rightarrow> (json \<Rightarrow> pystr) \<Rightarrow> json \<Rightarrow> exn + pystr" where
  "line_head clock py_str event =
     bind_exn (dict_get_default event (str ''timestamp'') (JStr [])) (\<lambda>ts.
     bind_exn (fromisoformat clock ts) (\<lambda>timestamp.
     bind_exn (dict_get_default event (str ''app'') (JStr (str ''unknown''))) (\<lambda>app0.
     bind_exn (slice_to 20 app0) (\<lambda>app.
     bind_exn (dict_get_default event (str ''event_type'') (JStr (str ''unknown''))) (\<lambda>event_type.
     bind_exn (table_get EVENT_TYPE_ICONS event_type default_icon) (\<lambda>icon.
     Inr (timestamp @ str '' ['' @ to_str py_str app @ str ''] '' @ icon @ str '' ''
          @ to_str py_str event_type)))))))"

text \<open>The body of the loop over the visible events: the line and its colour pair.\<close>

definition draw_line ::
  "(pystr \<Rightarrow> pystr option) \<Rightarrow> (json \<Rightarrow> pystr) \<Rightarrow> int \<Rightarrow> json \<Rightarrow> exn + pystr \<times> nat" where
  "draw_line clock py_str width event =
     bind_exn (line_head clock py_str event) (\<lambda>line0.
     bind_exn (dict_get_default event (str ''summary'') (JStr [])) (\<lambda>summary.
     bind_exn (add_summary py_str width line0 summary) (\<lambda>line1.
     bind_exn (dict_get_default event (str ''payload'') (JObj [])) (\<lambda>payload.
     bind_exn (dict_get_default payload (str ''agent_type'') (JStr (str ''unknown''))) (\<lambda>agent_type.
     bind_exn (table_get color_map agent_type 7) (\<lambda>color.
     Inr (fit width line1, color)))))))"

text \<open>
  A call of \<^verbatim>\<open>stdscr.addstr(y, x, text, attr)\<close>. Curses refuses a position outside
  the window and Python raises \<^verbatim>\<open>curses.error\<close>. A text can be refused for running
  past the last cell of the window as well; that is not modelled, so a redraw of the
  model makes every call the program's redraw makes.
\<close>

datatype attr = A_NORMAL | A_BOLD | A_DIM | COLOR_PAIR nat

type_synonym call = "int \<times> int \<times> pystr \<times> attr"

definition addstr :: "int \<Rightarrow> int \<Rightarrow> call \<Rightarrow> call list \<Rightarrow> exn + call list" where
  "addstr height width c calls =
     (case c of (y, x, text, a) \<Rightarrow>
        if y < 0 \<or> height \<le> y \<or> x < 0 \<or> width \<le> x then Inl CursesError
        else Inr (calls @ [c]))"

text \<open>The loop over the visible events, from the row \<open>y\<close> on.\<close>

fun draw_events ::
  "(pystr \<Rightarrow> pystr option) \<Rightarrow> (json \<Rightarrow> pystr) \<Rightarrow> int \<Rightarrow> int \<Rightarrow> int \<Rightarrow> json list \<Rightarrow> call list
     \<Rightarrow> exn + call list" where
  "draw_events clock py_str height width y [] calls = Inr calls"
| "draw_events clock py_str height width y (event # es) calls =
     (if y \<ge> height - 3 then Inr calls
      else bind_exn (draw_line clock py_str width event) (\<lambda>lc.
           bind_exn (addstr height width (y, 0, fst lc, COLOR_PAIR (snd lc)) calls) (\<lambda>calls'.
           draw_events clock py_str height width (y + 1) es calls')))"

text \<open>
  \<^verbatim>\<open>CursesAgentStream.draw_ui\<close> on a window of the given height and width: the state
  after it, and the calls of \<^verbatim>\<open>addstr\<close> that \<^verbatim>\<open>refresh\<close> puts on the screen, or
  the exception that ended the redraw before \<^verbatim>\<open>refresh\<close>.
\<close>

definition draw_ui ::
  "(pystr \<Rightarrow> pystr option) \<Rightarrow> (json \<Rightarrow> pystr) \<Rightarrow> int \<Rightarrow> int \<Rightarrow> curses_stream
     \<Rightarrow> curses_stream \<times> (exn + call list)" where
  "draw_ui clock py_str height width cs =
     (case addstr height width (0, (width - int (length header)) div 2, header, A_BOLD) [] of
        Inl e \<Rightarrow> (cs, Inl e)
      | Inr calls0 \<Rightarrow>
          (let cs' = cs\<lparr>c_stats := read_counter (KStr (str ''total'')) (c_stats cs)\<rparr>;
               stats_line = str ''Total: '' @ dec (total_count (c_stats cs')) @ str '' | ''
                            @ str ''Agents: '' @ dec (length (c_agent_stats cs')) @ str '' | ''
                            @ (if c_pause cs' then str ''PAUSED'' else []);
               event_start_y = 3;
               event_height = height - event_start_y - 3;
               visible_events = py_drop (- event_height) (c_events cs')
           in (cs',
               bind_exn (addstr height width (1, 0, stats_line, A_NORMAL) calls0) (\<lambda>calls1.
               bind_exn (draw_events clock py_str height width event_start_y visible_events calls1)
                 (\<lambda>calls2.
               addstr height width (height - 1, 0, footer, A_DIM) calls2)))))"

section \<open>The polling viewer: \<^verbatim>\<open>SimpleAgentStream\<close>\<close>

record simple_stream =
  s_server_url :: pystr
  s_running :: bool
  s_stats :: counter

definition new_simple_stream :: "pystr \<Rightarrow> simple_stream" where
  "new_simple_stream url = \<lparr> s_server_url = url, s_running = True, s_stats = [] \<rparr>"

definition default_color :: pystr where
  "default_color = 27 # str ''[97m''"

definition COLORS :: "(pystr \<times> pystr) list" where
  "COLORS =
     [(str ''openai'', 27 # str ''[92m''),
      (str ''anthropic'', 27 # str ''[94m''),
      (str ''custom'', 27 # str ''[93m''),
      (str ''default'', default_color)]"

text \<open>
  The payload of \<^verbatim>\<open>display_event\<close>: a string is decoded, and \<^verbatim>\<open>{}\<close> stands in
  where the decoding raises. \<open>json_loads s\<close> is what \<^verbatim>\<open>json.loads\<close> returns on
  \<open>s\<close>, or \<open>None\<close> where it raises.
\<close>

definition decode_payload :: "(pystr \<Rightarrow> json option) \<Rightarrow> json \<Rightarrow> json" where
  "decode_payload json_loads payload =
     (case payload of
        JStr s \<Rightarrow> (case json_loads s of None \<Rightarrow> JObj [] | Some v \<Rightarrow> v)
      | _ \<Rightarrow> payload)"

text \<open>
  The lines of \<^verbatim>\<open>display_event\<close> before the statistics: the fields read from the
  event, and the colour.
\<close>

definition display_fields ::
  "(pystr \<Rightarrow> pystr option) \<Rightarrow> (pystr \<Rightarrow> json option) \<Rightarrow> json
     \<Rightarrow> exn + pystr \<times> json \<times> json \<times> json \<times> pystr" where
  "display_fields clock json_loads event =
     bind_exn (dict_get_default event (str ''timestamp'') (JStr [])) (\<lambda>ts.
     bind_exn (fromisoformat clock ts) (\<lambda>timestamp.
     bind_exn (dict_get_default event (str ''app'') (JStr (str ''unknown''))) (\<lambda>app.
     bind_exn (dict_get_default event (str ''event_type'') (JStr (str ''unknown''))) (\<lambda>event_type.
     bind_exn (dict_get_default event (str ''summary'') (JStr [])) (\<lambda>summary.
     bind_exn (dict_get_default event (str ''payload'') (JObj [])) (\<lambda>payload.
     bind_exn (dict_get_default (decode_payload json_loads payload) (str ''agent_type'')
                 (JStr (str ''default''))) (\<lambda>agent_type.
     bind_exn (table_get COLORS agent_type default_color) (\<lambda>color.
     Inr (timestamp, app, event_type, summary, color)))))))))"

text \<open>\<^verbatim>\<open>SimpleAgentStream.display_event\<close>.\<close>

definition display_event ::
  "(pystr \<Rightarrow> pystr option) \<Rightarrow> (json \<Rightarrow> pystr) \<Rightarrow> (pystr \<Rightarrow> json option)
     \<Rightarrow> simple_stream \<times> printout \<Rightarrow> json \<Rightarrow> exn option \<times> simple_stream \<times> printout" where
  "display_event clock py_str json_loads so event =
     (case display_fields clock json_loads event of
        Inl e \<Rightarrow> (Some e, fst so, snd so)
      | Inr (timestamp, app, event_type, summary, color) \<Rightarrow>
          (let s1 = bump (KStr (str ''total'')) (s_stats (fst so)) in
           case hash_key event_type of
             Inl e \<Rightarrow> (Some e, (fst so)\<lparr>s_stats := s1\<rparr>, snd so)
           | Inr etk \<Rightarrow>
               (let line = DIM @ timestamp @ RESET_COLOR @ str '' '' @ color @ BOLD
                           @ str ''['' @ to_str py_str app @ str '']'' @ RESET_COLOR @ str '' ''
                           @ to_str py_str event_type
                           @ (if truthy summary
                              then str '' - '' @ DIM @ to_str py_str summary @ RESET_COLOR
                              else [])
                in (None, (fst so)\<lparr>s_stats := bump etk s1\<rparr>,
                    snd so @ [(Stdout, Line line)]))))"

text \<open>
  The loop over one fetched batch in \<^verbatim>\<open>poll_events\<close>. \<open>seen\<close> is the set
  \<^verbatim>\<open>seen_ids\<close>; \<^verbatim>\<open>event.get('id')\<close> is \<^verbatim>\<open>None\<close> for an event without the field.
  \<^verbatim>\<open>set.pop()\<close> removes an element of its own choice: \<open>pop\<close> is that choice.
\<close>

fun poll_batch ::
  "(pystr \<Rightarrow> pystr option) \<Rightarrow> (json \<Rightarrow> pystr) \<Rightarrow> (pystr \<Rightarrow> json option)
     \<Rightarrow> (hkey list \<Rightarrow> hkey list)
     \<Rightarrow> simple_stream \<times> hkey list \<times> printout \<Rightarrow> json list
     \<Rightarrow> exn option \<times> simple_stream \<times> hkey list \<times> printout" where
  "poll_batch clock py_str json_loads pop (ss, seen, out) [] = (None, ss, seen, out)"
| "poll_batch clock py_str json_loads pop (ss, seen, out) (event # es) =
     (case dict_get event (str ''id'') of
        Inl e \<Rightarrow> (Some e, ss, seen, out)
      | Inr idv \<Rightarrow>
     (case hash_key (case idv of None \<Rightarrow> JNull | Some v \<Rightarrow> v) of
        Inl e \<Rightarrow> (Some e, ss, seen, out)
      | Inr event_id \<Rightarrow>
          if event_id \<in> set seen
          then poll_batch clock py_str json_loads pop (ss, seen, out) es
          else
            (let seen1 = seen @ [event_id] in
             case display_event clock py_str json_loads (ss, out) event of
               (Some e, ss', out') \<Rightarrow> (Some e, ss', seen1, out')
             | (None, ss', out') \<Rightarrow>
                 poll_batch clock py_str json_loads pop
                   (ss', if length seen1 > 100 then pop seen1 else seen1, out') es)))"

text \<open>
  \<^verbatim>\<open>poll_events\<close> over the batches that the successive calls of \<^verbatim>\<open>fetch_events\<close>
  return; \<^verbatim>\<open>seen_ids\<close> lives as long as the loop. An exception ends the batch and is
  printed.
\<close>

fun poll_events ::
  "(pystr \<Rightarrow> pystr option) \<Rightarrow> (json \<Rightarrow> pystr) \<Rightarrow> (pystr \<Rightarrow> json option)
     \<Rightarrow> (hkey list \<Rightarrow> hkey list)
     \<Rightarrow> simple_stream \<times> hkey list \<times> printout \<Rightarrow> json list
     \<Rightarrow> simple_stream \<times> hkey list \<times> printout" where
  "poll_events clock py_str json_loads pop (ss, seen, out) [] = (ss, seen, out)"
| "poll_events clock py_str json_loads pop (ss, seen, out) (batch # bs) =
     (if \<not> s_running ss then (ss, seen, out)
      else case py_iter batch of
        Inl e \<Rightarrow>
          poll_events clock py_str json_loads pop (ss, seen, out @ [(Stdout, PollError e)]) bs
      | Inr es \<Rightarrow>
          (case poll_batch clock py_str json_loads pop (ss, seen, out) es of
             (Some e, ss', seen', out') \<Rightarrow>
               poll_events clock py_str json_loads pop
                 (ss', seen', out' @ [(Stdout, PollError e)]) bs
           | (None, ss', seen', out') \<Rightarrow>
               poll_events clock py_str json_loads pop (ss', seen', out') bs))"

section \<open>Examples and notions for the properties\<close>

text \<open>
  The clock of the examples: the time of the one timestamp they use. The properties
  about every event take the clock as a parameter.
\<close>

definition sample_clock :: "pystr \<Rightarrow> pystr option" where
  "sample_clock s =
     (if s = str ''2024-01-01T12:00:00'' then Some (str ''12:00:00'') else None)"

text \<open>
  The two messages of the server: the backfill with its list of events, and one live
  event.
\<close>

definition init_msg :: "json list \<Rightarrow> json" where
  "init_msg es = JObj [(str ''type'', JStr (str ''init'')), (str ''events'', JArr es)]"

definition event_msg :: "json \<Rightarrow> json" where
  "event_msg e = JObj [(str ''type'', JStr (str ''event'')), (str ''data'', e)]"

text \<open>
  The text of the examples for a value that is not a string; the examples format
  strings only.
\<close>

definition sample_py_str :: "json \<Rightarrow> pystr" where
  "sample_py_str v = []"

definition sample_event :: json where
  "sample_event = JObj [(str ''timestamp'', JStr (str ''2024-01-01T12:00:00''))]"

text \<open>
  The events on which no statement of the statistics raises: a dict whose category and
  source are hashable and whose payload, when it has one, is a dict with a hashable agent
  type. \<open>field\<close> is \<^verbatim>\<open>dict.get\<close> with a default on the items of a dict, and
  \<open>key_of\<close> the key of a hashable value.
\<close>

definition hashable :: "json \<Rightarrow> bool" where
  "hashable v = (case hash_key v of Inl e \<Rightarrow> False | Inr k \<Rightarrow> True)"

definition key_of :: "json \<Rightarrow> hkey" where
  "key_of v = (case hash_key v of Inl e \<Rightarrow> KNone | Inr k \<Rightarrow> k)"

definition field :: "(pystr \<times> json) list \<Rightarrow> pystr \<Rightarrow> json \<Rightarrow> json" where
  "field kvs k d = (case map_of kvs k of None \<Rightarrow> d | Some v \<Rightarrow> v)"

fun countable_event :: "json \<Rightarrow> bool" where
  "countable_event (JObj kvs) =
     (hashable (field kvs (str ''event_type'') (JStr (str ''unknown''))) \<and>
      hashable (field kvs (str ''app'') (JStr (str ''unknown''))) \<and>
      (case field kvs (str ''payload'') (JObj []) of
         JObj p \<Rightarrow> hashable (field p (str ''agent_type'') (JStr (str ''unknown'')))
       | _ \<Rightarrow> False))"
| "countable_event _ = False"

definition agent_type_of :: "(pystr \<times> json) list \<Rightarrow> json" where
  "agent_type_of kvs =
     (case field kvs (str ''payload'') (JObj []) of
        JObj p \<Rightarrow> field p (str ''agent_type'') (JStr (str ''unknown''))
      | _ \<Rightarrow> JNull)"

text \<open>
  The stream as \<^verbatim>\<open>main\<close> sets it up: a new \<^verbatim>\<open>AgentEventStream\<close> with the two
  filters of the command line.
\<close>

definition start_stream :: "pystr \<Rightarrow> pystr option \<Rightarrow> pystr option \<Rightarrow> stream" where
  "start_stream url fa ft = (new_stream url)\<lparr>filter_app := fa, filter_type := ft\<rparr>"

text \<open>
  The events of a run, batch by batch: a batch is processed up to its first exception,
  and the loop \<^verbatim>\<open>while self.running\<close> of \<^verbatim>\<open>connect_and_stream\<close> connects again
  and goes on with the state as the exception left it.
\<close>

fun process_batches :: "stream \<Rightarrow> json list list \<Rightarrow> stream" where
  "process_batches st [] = st"
| "process_batches st (b # bs) = process_batches (snd (process_events st b)) bs"

text \<open>An event of the source \<open>T\<close>: its \<^verbatim>\<open>app\<close> is the string \<open>T\<close>.\<close>

definition from_source :: "pystr \<Rightarrow> json \<Rightarrow> bool" where
  "from_source T e = (dict_get e (str ''app'') = Inr (Some (JStr T)))"

text \<open>
  A stream that knows the source \<open>S\<close> only: in the agent counters, the recent events
  and the display queue.
\<close>

definition only_source :: "pystr \<Rightarrow> stream \<Rightarrow> bool" where
  "only_source S st \<longleftrightarrow>
     fst ` set (agent_stats st) \<subseteq> {KStr S} \<and>
     (\<forall>e\<in>set (events st). from_source S e) \<and>
     (\<forall>e\<in>set (event_queue st). from_source S e)"

text \<open>Two events of the scenario of the specification, of the sources A and B.\<close>

definition event_A :: json where
  "event_A = JObj [(str ''event_type'', JStr (str ''tool_use'')), (str ''app'', JStr (str ''A''))]"

definition event_B :: json where
  "event_B = JObj [(str ''event_type'', JStr (str ''error'')), (str ''app'', JStr (str ''B''))]"

text \<open>The key under which the statistics count the category of an event.\<close>

definition category_key :: "json \<Rightarrow> hkey" where
  "category_key e =
     (case e of
        JObj kvs \<Rightarrow> key_of (field kvs (str ''event_type'') (JStr (str ''unknown'')))
      | _ \<Rightarrow> KNone)"

text \<open>
  An event of the category \<^verbatim>\<open>total\<close>, and an event whose payload is a string, the
  encoded form that \<^verbatim>\<open>SimpleAgentStream.display_event\<close> decodes.
\<close>

definition total_event :: json where
  "total_event = JObj [(str ''event_type'', JStr (str ''total''))]"

definition string_payload_event :: json where
  "string_payload_event = JObj [(str ''payload'', JStr (str ''{}''))]"

text \<open>
  Two events with a value that no table has and no dict can look up: a list as the agent
  type, and a list as the category.
\<close>

definition list_agent_event :: json where
  "list_agent_event =
     JObj [(str ''timestamp'', JStr (str ''2024-01-01T12:00:00'')),
           (str ''payload'', JObj [(str ''agent_type'', JArr [JStr (str ''gpt'')])])]"

definition list_category_event :: json where
  "list_category_event =
     JObj [(str ''timestamp'', JStr (str ''2024-01-01T12:00:00'')),
           (str ''event_type'', JArr [JStr (str ''tool_use'')])]"

text \<open>
  For the examples of the polling viewer: a decoder that rejects every string, a
  \<^verbatim>\<open>set.pop\<close> that removes the oldest element, and a second event without \<^verbatim>\<open>id\<close>.
\<close>

definition sample_json_loads :: "pystr \<Rightarrow> json option" where
  "sample_json_loads s = None"

definition sample_pop :: "hkey list \<Rightarrow> hkey list" where
  "sample_pop seen = tl seen"

definition other_event :: json where
  "other_event =
     JObj [(str ''timestamp'', JStr (str ''2024-01-01T12:00:00'')),
           (str ''app'', JStr (str ''B''))]"

text \<open>
  The line of an event with nothing cut: the head, and the whole summary where the event
  has one.
\<close>

definition uncut_line ::
  "(pystr \<Rightarrow> pystr option) \<Rightarrow> (json \<Rightarrow> pystr) \<Rightarrow> json \<Rightarrow> exn + pystr" where
  "uncut_line clock py_str event =
     bind_exn (line_head clock py_str event) (\<lambda>line0.
     bind_exn (dict_get_default event (str ''summary'') (JStr [])) (\<lambda>summary.
     Inr (if truthy summary then line0 @ str '' - '' @ to_str py_str summary else line0)))"

text \<open>An event with a summary of 100 letters, and the dashboard that has received it.\<close>

definition long_event :: json where
  "long_event =
     JObj [(str ''timestamp'', JStr (str ''2024-01-01T12:00:00'')),
           (str ''summary'', JStr (replicate 100 120))]"

definition long_dashboard :: curses_stream where
  "long_dashboard = on_frame (new_curses_stream []) (Parsed (event_msg long_event))"

section \<open>Properties\<close>

subsection \<open>Strings and counters\<close>

declare dec.simps [simp del]

lemma str_eq_iff [simp]: "str a = str b \<longleftrightarrow> a = b"
  by (simp add: str_def inj_on_def)

lemma length_str [simp]: "length (str s) = length s"
  by (simp add: str_def)

lemma str_Nil [simp]: "str [] = []"
  by (simp add: str_def)

lemma str_eq_Nil [simp]: "str s = [] \<longleftrightarrow> s = []"
  by (simp add: str_def)

lemma Nil_eq_str [simp]: "[] = str s \<longleftrightarrow> s = []"
  by (simp add: str_def)

lemma str_append: "str (a @ b) = str a @ str b"
  by (simp add: str_def)

subsection \<open>Backfill and live delivery\<close>

lemma handle_init_msg: "handle_message st (init_msg es) = process_events st es"
  by (simp add: handle_message_def init_msg_def dict_get_default_def)

lemma handle_event_msg: "handle_message st (event_msg e) = process_event st e"
  by (simp add: handle_message_def event_msg_def dict_get_default_def)

lemma running_process_event: "running (snd (process_event st e)) = running st"
  by (simp add: process_event_def Let_def split: sum.splits bool.splits prod.splits option.splits)

lemma receive_live:
  "receive (st, out) (map (\<lambda>e. Parsed (event_msg e)) es) =
     (if running st \<or> es = [] then (fst (process_events st es), snd (process_events st es), out)
      else (None, st, out))"
proof (induction es arbitrary: st)
  case Nil
  show ?case by simp
next
  case (Cons e es)
  show ?case
  proof (cases "running st")
    case False
    then show ?thesis by simp
  next
    case True
    obtain x st' where pe: "process_event st e = (x, st')" by (cases "process_event st e")
    have r: "running st'" using running_process_event [of st e] pe True by simp
    show ?thesis
    proof (cases x)
      case None
      then show ?thesis using True pe r Cons.IH [of st'] by (simp add: handle_event_msg)
    next
      case (Some a)
      then show ?thesis using True pe by (simp add: handle_event_msg)
    qed
  qed
qed

text \<open>
  C7. On one connection, the backfill message carrying the events \<open>es\<close> and the live
  messages carrying the same events one by one, in the same order, end in the same state
  of the stream: the same recent events, counters and display queue, the same printed
  lines, and the same exception if an event raises one (both stop at that event).
\<close>

theorem backfill_same_as_live:
  "receive (st, out) [Parsed (init_msg es)] =
   receive (st, out) (map (\<lambda>e. Parsed (event_msg e)) es)"
proof (cases "running st")
  case False
  then show ?thesis by (cases es) simp_all
next
  case True
  then show ?thesis
    by (simp add: receive_live handle_init_msg split: prod.splits option.splits)
qed

subsection \<open>Malformed frames\<close>

lemma bind_exn_simps [simp]:
  "bind_exn (Inl e) f = Inl e"
  "bind_exn (Inr v) f = f v"
  by (simp_all add: bind_exn_def)

lemma receive_out_irrelevant:
  "fst (receive (st, out) fs) = fst (receive (st, out2) fs) \<and>
   fst (snd (receive (st, out) fs)) = fst (snd (receive (st, out2) fs))"
proof (induction fs arbitrary: st out out2)
  case Nil
  show ?case by simp
next
  case (Cons f fs)
  show ?case
  proof (cases f)
    case Malformed
    then show ?thesis
      using Cons.IH [of st "out @ [(Stdout, Line invalid_message)]"
          "out2 @ [(Stdout, Line invalid_message)]"]
      by simp
  next
    case (Parsed data)
    then show ?thesis using Cons.IH
      by (simp split: prod.splits option.splits)
  qed
qed

text \<open>
  C4, as the code has it. While the stream runs, a frame that \<^verbatim>\<open>json.loads\<close> rejects
  prints one line, \<^verbatim>\<open>Invalid message received\<close>, on standard output and nothing
  else happens: the loop goes on with the next frame, and the connection ends in the
  state, and with the exception if any, that it would have ended in without the frame.
\<close>

theorem malformed_frame_skipped:
  assumes "running st"
  shows "receive (st, out) (Malformed # fs) =
           receive (st, out @ [(Stdout, Line invalid_message)]) fs
       \<and> fst (receive (st, out) (Malformed # fs)) = fst (receive (st, out) fs)
       \<and> fst (snd (receive (st, out) (Malformed # fs))) = fst (snd (receive (st, out) fs))"
  using assms receive_out_irrelevant [of st "out @ [(Stdout, Line invalid_message)]" fs out]
  by simp

theorem malformed_frame_skipped_witness:
  "running (new_stream []) \<and>
   receive (new_stream [], []) [Malformed, Parsed (event_msg (JObj []))] =
     (None, snd (process_event (new_stream []) (JObj [])), [(Stdout, Line invalid_message)])"
  using malformed_frame_skipped [of "new_stream []" "[]" "[Parsed (event_msg (JObj []))]"]
  by (simp add: handle_event_msg new_stream_def process_event_def filter_drops_def
      update_counters_def dict_get_default_def Let_def)

text \<open>
  The diagnostic of C4 has no channel of its own. After a valid frame, a malformed frame
  and one round of the display thread, standard output holds the diagnostic and the line
  of the event.
\<close>

theorem diagnostic_shares_stdout:
  "snd (display_step sample_clock sample_py_str
     (snd (receive (new_stream [], []) [Parsed (event_msg sample_event), Malformed]))) =
   [(Stdout, Line invalid_message),
    (Stdout, Line (DIM @ str ''12:00:00'' @ RESET_COLOR @ str '' '' @ unknown_color @ BOLD
       @ str ''[unknown]'' @ RESET_COLOR @ str '' '' @ default_icon @ str '' unknown''))]"
  by (simp add: handle_event_msg new_stream_def process_event_def filter_drops_def
      update_counters_def dict_get_default_def Let_def display_step_def format_event_def
      sample_event_def sample_clock_def fromisoformat_def table_get_def to_str_def str_def
      AGENT_COLORS_def EVENT_TYPE_ICONS_def)

subsection \<open>Events that are counted\<close>

lemma dict_get_default_JObj [simp]:
  "dict_get_default (JObj kvs) k d = Inr (field kvs k d)"
  by (simp add: dict_get_default_def field_def split: option.splits)

lemma hash_key_hashable: "hashable v \<Longrightarrow> hash_key v = Inr (key_of v)"
  by (simp add: hashable_def key_of_def split: sum.splits)

lemma map_of_bump:
  "map_of (bump k d) k' = (if k' = k then Some (count_of d k + 1) else map_of d k')"
  by (induction d) (auto simp: count_of_def)

lemma count_of_bump:
  "count_of (bump k d) k' = (if k' = k then count_of d k + 1 else count_of d k')"
  by (simp add: count_of_def map_of_bump)

lemma map_fst_touch:
  "map fst (touch a m) = (if a \<in> set (map fst m) then map fst m else map fst m @ [a])"
  by (induction m) (force split: if_splits)+

lemma map_fst_bump_inner: "map fst (bump_inner a t m) = map fst m"
  by (induction m) auto

lemma map_fst_bump:
  "map fst (bump k d) = (if k \<in> set (map fst d) then map fst d else map fst d @ [k])"
  by (induction d) (force split: if_splits)+

lemma keys_touch: "fst ` set (touch a m) = insert a (fst ` set m)"
proof -
  have "set (map fst (touch a m)) = insert a (set (map fst m))"
    unfolding map_fst_touch by auto
  then show ?thesis by simp
qed

lemma keys_bump_inner: "fst ` set (bump_inner a t m) = fst ` set m"
proof -
  have "set (map fst (bump_inner a t m)) = set (map fst m)"
    unfolding map_fst_bump_inner by simp
  then show ?thesis by simp
qed

lemma update_counters_countable:
  assumes "countable_event (JObj kvs)"
  shows "update_counters (JObj kvs) (s, a) =
     (None,
      bump (key_of (field kvs (str ''event_type'') (JStr (str ''unknown''))))
        (bump (KStr (str ''total'')) s),
      bump_inner (key_of (field kvs (str ''app'') (JStr (str ''unknown''))))
        (key_of (agent_type_of kvs))
        (touch (key_of (field kvs (str ''app'') (JStr (str ''unknown'')))) a))"
  using assms
  by (auto simp: update_counters_def Let_def hash_key_hashable agent_type_of_def
      split: json.splits)

lemma process_event_countable:
  assumes "\<not> pause st" "filter_app st = None" "filter_type st = None"
    and "countable_event (JObj kvs)"
  shows "process_event st (JObj kvs) =
     (None, st\<lparr>stats := bump (key_of (field kvs (str ''event_type'') (JStr (str ''unknown''))))
                     (bump (KStr (str ''total'')) (stats st)),
               agent_stats := bump_inner (key_of (field kvs (str ''app'') (JStr (str ''unknown''))))
                     (key_of (agent_type_of kvs))
                     (touch (key_of (field kvs (str ''app'') (JStr (str ''unknown''))))
                        (agent_stats st)),
               event_queue := event_queue st @ [JObj kvs],
               events := (if length (events st) \<ge> 1000 then tl (events st @ [JObj kvs])
                          else events st @ [JObj kvs])\<rparr>)"
  using assms
  by (simp add: process_event_def filter_drops_def update_counters_countable Let_def)

lemma total_count_bump:
  "total_count (bump k d) =
     (if k = KStr (str ''total'') then total_count d + 1 else total_count d)"
  by (simp add: total_count_def count_of_bump)

lemma format_event_no_timestamp:
  assumes "map_of kvs (str ''timestamp'') = None" "clock [] = None"
  shows "format_event clock py_str st (JObj kvs) = Inl ValueError"
  using assms by (simp add: format_event_def field_def fromisoformat_def)

subsection \<open>Records with missing fields\<close>

text \<open>
  C5 asks that a record without timestamp, source or category be rejected. The record
  with no field at all is counted, under the category and the source \<^verbatim>\<open>unknown\<close>, and
  kept in the recent events and in the display queue.
\<close>

theorem empty_record_is_counted:
  "process_event (new_stream []) (JObj []) =
     (None, (new_stream [])
        \<lparr>events := [JObj []],
         stats := [(KStr (str ''total''), 1), (KStr (str ''unknown''), 1)],
         agent_stats := [(KStr (str ''unknown''), [(KStr (str ''unknown''), 1)])],
         event_queue := [JObj []]\<rparr>)"
  by (simp add: new_stream_def process_event_def filter_drops_def update_counters_def
      Let_def field_def)

text \<open>
  C5, as the code has it. \<^verbatim>\<open>process_event\<close> checks no field. With no pause and no
  filter, every record on which the statistics raise nothing is accepted, whatever fields
  it lacks: it becomes the newest recent event and the newest of the display queue, the
  total grows, a record without category is counted under \<^verbatim>\<open>unknown\<close> and a record
  without source under the source \<^verbatim>\<open>unknown\<close>. The timestamp is not defaulted to the
  current time: for a record without one \<^verbatim>\<open>format_event\<close> parses the empty string,
  and raises \<^verbatim>\<open>ValueError\<close> as \<^verbatim>\<open>fromisoformat\<close> does on it.
\<close>

theorem missing_fields_counted:
  assumes "\<not> pause st" "filter_app st = None" "filter_type st = None"
    and "countable_event (JObj kvs)"
  shows "fst (process_event st (JObj kvs)) = None
       \<and> last (events (snd (process_event st (JObj kvs)))) = JObj kvs
       \<and> last (event_queue (snd (process_event st (JObj kvs)))) = JObj kvs
       \<and> total_count (stats (snd (process_event st (JObj kvs)))) > total_count (stats st)
       \<and> (map_of kvs (str ''event_type'') = None \<longrightarrow>
            count_of (stats (snd (process_event st (JObj kvs)))) (KStr (str ''unknown''))
              = count_of (stats st) (KStr (str ''unknown'')) + 1)
       \<and> (map_of kvs (str ''app'') = None \<longrightarrow>
            KStr (str ''unknown'') \<in> fst ` set (agent_stats (snd (process_event st (JObj kvs)))))
       \<and> (map_of kvs (str ''timestamp'') = None \<and> clock [] = None \<longrightarrow>
            format_event clock py_str (snd (process_event st (JObj kvs))) (JObj kvs)
              = Inl ValueError)"
proof -
  have l: "last (if length (events st) \<ge> 1000 then tl (events st @ [JObj kvs])
                 else events st @ [JObj kvs]) = JObj kvs"
    by (cases "events st") auto
  show ?thesis
    unfolding process_event_countable [OF assms]
    using l
    by (simp add: total_count_bump count_of_bump keys_bump_inner keys_touch
        format_event_no_timestamp field_def key_of_def)
qed

theorem missing_fields_counted_witness:
  "\<not> pause (new_stream []) \<and> countable_event (JObj []) \<and> sample_clock [] = None
   \<and> fst (process_event (new_stream []) (JObj [])) = None
   \<and> events (snd (process_event (new_stream []) (JObj []))) = [JObj []]
   \<and> total_count (stats (snd (process_event (new_stream []) (JObj [])))) = 1
   \<and> format_event sample_clock sample_py_str (snd (process_event (new_stream []) (JObj [])))
        (JObj []) = Inl ValueError"
  using missing_fields_counted [of "new_stream []" "[]" sample_clock sample_py_str]
  by (simp add: new_stream_def process_event_def filter_drops_def update_counters_def
      Let_def sample_clock_def hashable_def field_def total_count_def count_of_def)

subsection \<open>Pause\<close>

lemma update_counters_total:
  "total_count (fst (snd (update_counters e cs))) > total_count (fst cs)"
  by (simp add: update_counters_def Let_def total_count_bump split: sum.splits)

lemma on_frame_event_msg:
  "on_frame cs (Parsed (event_msg e)) =
     (case update_counters e (c_stats cs, c_agent_stats cs) of
        (Some x, s, a) \<Rightarrow> cs\<lparr>c_events := c_events cs @ [e], c_stats := s, c_agent_stats := a\<rparr>
      | (None, s, a) \<Rightarrow>
          cs\<lparr>c_events := (if length (c_events cs) \<ge> 500 then tl (c_events cs @ [e])
                           else c_events cs @ [e]),
             c_stats := s, c_agent_stats := a\<rparr>)"
  by (simp add: on_frame_def event_msg_def field_def Let_def split: prod.splits option.splits)

lemma on_frame_pause:
  "on_frame (cs\<lparr>c_pause := b\<rparr>) f = (on_frame cs f)\<lparr>c_pause := b\<rparr>"
  by (simp add: on_frame_def Let_def split: frame.splits sum.splits prod.splits option.splits)

lemma draw_events_prefix:
  "draw_events clock py_str height width y es calls =
     (case draw_events clock py_str height width y es [] of
        Inl e \<Rightarrow> Inl e
      | Inr r \<Rightarrow> Inr (calls @ r))"
proof (induction es arbitrary: y calls)
  case Nil
  show ?case by simp
next
  case (Cons e es)
  show ?case
  proof (cases "y \<ge> height - 3")
    case True
    then show ?thesis by simp
  next
    case False
    show ?thesis
    proof (cases "draw_line clock py_str width e")
      case (Inl x)
      then show ?thesis using False by simp
    next
      case (Inr lc)
      show ?thesis
      proof (cases "height \<le> y \<or> y < 0 \<or> width \<le> 0")
        case True
        then show ?thesis using False Inr by (auto simp: addstr_def)
      next
        case ok: False
        have a: "\<And>cs. addstr height width (y, 0, fst lc, COLOR_PAIR (snd lc)) cs
                   = Inr (cs @ [(y, 0, fst lc, COLOR_PAIR (snd lc))])"
          using ok by (auto simp: addstr_def)
        show ?thesis
          using False Inr a
            Cons.IH [of "y + 1" "calls @ [(y, 0, fst lc, COLOR_PAIR (snd lc))]"]
            Cons.IH [of "y + 1" "[(y, 0, fst lc, COLOR_PAIR (snd lc))]"]
          by (simp split: sum.splits)
      qed
    qed
  qed
qed

lemma pause_changes_status_row_only:
  "map_sum id (filter (\<lambda>c. fst c \<noteq> 1))
     (snd (draw_ui clock py_str height width (cs\<lparr>c_pause := b\<rparr>)))
   = map_sum id (filter (\<lambda>c. fst c \<noteq> 1))
     (snd (draw_ui clock py_str height width cs))"
proof -
  let ?h = "(0, (width - int (length header)) div 2, header, A_BOLD)"
  show ?thesis
  proof (cases "addstr height width ?h []")
    case (Inl x)
    then show ?thesis by (simp add: draw_ui_def)
  next
    case (Inr calls0)
    have s: "\<And>sl. addstr height width (1, 0, sl, A_NORMAL) calls0
               = (if height \<le> 1 \<or> width \<le> 0 then Inl CursesError
                  else Inr (calls0 @ [(1, 0, sl, A_NORMAL)]))"
      by (auto simp: addstr_def)
    have f: "\<And>c2. addstr height width (height - 1, 0, footer, A_DIM) c2
               = (if height - 1 < 0 \<or> width \<le> 0 then Inl CursesError
                  else Inr (c2 @ [(height - 1, 0, footer, A_DIM)]))"
      by (auto simp: addstr_def)
    show ?thesis
      using Inr
      by (simp add: draw_ui_def Let_def s f
          draw_events_prefix [of _ _ _ _ _ _ "calls0 @ [_]"]
          split: sum.splits)
  qed
qed

lemma pause_core:
  "(pause st \<longrightarrow> process_event st e = (None, st))
   \<and> handle_input cs 112 = cs\<lparr>c_pause := \<not> c_pause cs\<rparr>
   \<and> on_frame (cs\<lparr>c_pause := b\<rparr>) f = (on_frame cs f)\<lparr>c_pause := b\<rparr>
   \<and> last (c_events (on_frame cs (Parsed (event_msg e)))) = e
   \<and> total_count (c_stats (on_frame cs (Parsed (event_msg e)))) > total_count (c_stats cs)"
proof -
  obtain x s a where u: "update_counters e (c_stats cs, c_agent_stats cs) = (x, s, a)"
    by (cases "update_counters e (c_stats cs, c_agent_stats cs)")
  have t: "total_count s > total_count (c_stats cs)"
    using update_counters_total [of "(c_stats cs, c_agent_stats cs)" e] u by simp
  have l: "last (if length (c_events cs) \<ge> 500 then tl (c_events cs @ [e])
                 else c_events cs @ [e]) = e"
    by (cases "c_events cs") auto
  show ?thesis
    using t l u
    by (cases x) (simp_all add: process_event_def handle_input_def on_frame_pause on_frame_event_msg)
qed

text \<open>
  C3, as the code has it. In the append-log viewer an event that arrives while
  \<^verbatim>\<open>pause\<close> is set is discarded: \<^verbatim>\<open>process_event\<close> returns at once, no counter moves
  and nothing is queued. In the dashboard viewer the key \<^verbatim>\<open>p\<close> flips the flag and the
  receive loop does not read it: set or not, every live event becomes the newest of the
  events and raises the total. Nor does the flag hold the display back: a redraw makes
  the same calls with the flag set or not, but for the status row, which gets the label
  \<^verbatim>\<open>PAUSED\<close>.
\<close>

theorem pause_drops_or_is_ignored:
  "(pause st \<longrightarrow> process_event st e = (None, st))
   \<and> handle_input cs 112 = cs\<lparr>c_pause := \<not> c_pause cs\<rparr>
   \<and> on_frame (cs\<lparr>c_pause := b\<rparr>) f = (on_frame cs f)\<lparr>c_pause := b\<rparr>
   \<and> last (c_events (on_frame cs (Parsed (event_msg e)))) = e
   \<and> total_count (c_stats (on_frame cs (Parsed (event_msg e)))) > total_count (c_stats cs)
   \<and> map_sum id (filter (\<lambda>c. fst c \<noteq> 1))
         (snd (draw_ui clock py_str height width (cs\<lparr>c_pause := b\<rparr>)))
       = map_sum id (filter (\<lambda>c. fst c \<noteq> 1))
         (snd (draw_ui clock py_str height width cs))"
  using pause_core [of st e cs b f]
    pause_changes_status_row_only [of clock py_str height width b cs]
  by blast

theorem pause_drops_or_is_ignored_witness:
  "pause ((new_stream [])\<lparr>pause := True\<rparr>)
   \<and> process_event ((new_stream [])\<lparr>pause := True\<rparr>) sample_event
       = (None, (new_stream [])\<lparr>pause := True\<rparr>)
   \<and> c_events (on_frame ((new_curses_stream [])\<lparr>c_pause := True\<rparr>) (Parsed (event_msg sample_event)))
       = [sample_event]
   \<and> total_count (c_stats (on_frame ((new_curses_stream [])\<lparr>c_pause := True\<rparr>)
         (Parsed (event_msg sample_event)))) = 1"
  using pause_drops_or_is_ignored [of "(new_stream [])\<lparr>pause := True\<rparr>" sample_event
      "new_curses_stream []" True "Parsed (event_msg sample_event)"]
  by (simp add: on_frame_event_msg new_curses_stream_def update_counters_def sample_event_def
      total_count_def count_of_def field_def Let_def)

text \<open>
  C3 asks that an event arriving under pause be kept for later. In the append-log viewer
  it is gone: the total stays 0 and neither the queue nor the recent events hold it.
\<close>

theorem paused_event_is_lost:
  "total_count (stats (snd (process_event ((new_stream [])\<lparr>pause := True\<rparr>) sample_event))) = 0
   \<and> event_queue (snd (process_event ((new_stream [])\<lparr>pause := True\<rparr>) sample_event)) = []
   \<and> events (snd (process_event ((new_stream [])\<lparr>pause := True\<rparr>) sample_event)) = []"
  by (simp add: process_event_def new_stream_def total_count_def count_of_def)

subsection \<open>The source filter\<close>

lemma other_source_dropped:
  assumes "filter_app st = Some S" "S \<noteq> []" "from_source T e" "T \<noteq> S"
  shows "process_event st e = (None, st)"
  using assms by (simp add: process_event_def filter_drops_def from_source_def)

lemma filter_app_process_event: "filter_app (snd (process_event st e)) = filter_app st"
  by (simp add: process_event_def Let_def split: sum.splits bool.splits prod.splits option.splits)

lemma filter_app_process_events: "filter_app (snd (process_events st es)) = filter_app st"
proof (induction es arbitrary: st)
  case Nil
  show ?case by simp
next
  case (Cons e es)
  obtain x st' where pe: "process_event st e = (x, st')" by (cases "process_event st e")
  have "filter_app st' = filter_app st" using filter_app_process_event [of st e] pe by simp
  then show ?case using pe Cons.IH [of st'] by (cases x) simp_all
qed

lemma process_events_without:
  assumes "filter_app st = Some S" "S \<noteq> []" "T \<noteq> S"
  shows "process_events st es = process_events st (filter (\<lambda>e. \<not> from_source T e) es)"
  using assms(1)
proof (induction es arbitrary: st)
  case Nil
  show ?case by simp
next
  case (Cons e es)
  show ?case
  proof (cases "from_source T e")
    case True
    then show ?thesis
      using other_source_dropped [OF Cons.prems assms(2) True assms(3)] Cons.IH [OF Cons.prems]
      by simp
  next
    case False
    obtain x st' where pe: "process_event st e = (x, st')" by (cases "process_event st e")
    have "filter_app st' = Some S" using filter_app_process_event [of st e] pe Cons.prems by simp
    then show ?thesis using False pe Cons.IH [of st'] by (cases x) simp_all
  qed
qed

lemma process_batches_without:
  assumes "filter_app st = Some S" "S \<noteq> []" "T \<noteq> S"
  shows "process_batches st bss = process_batches st (map (filter (\<lambda>e. \<not> from_source T e)) bss)"
  using assms(1)
proof (induction bss arbitrary: st)
  case Nil
  show ?case by simp
next
  case (Cons b bss)
  have f: "filter_app (snd (process_events st b)) = Some S"
    using filter_app_process_events [of st b] Cons.prems by simp
  show ?case
    using Cons.IH [OF f] process_events_without [OF Cons.prems assms(2,3), of b]
    by simp
qed

lemma update_counters_keys:
  "fst ` set (snd (snd (update_counters (JObj kvs) (s, a))))
     \<subseteq> insert (key_of (field kvs (str ''app'') (JStr (str ''unknown'')))) (fst ` set a)"
  by (simp add: update_counters_def Let_def keys_touch keys_bump_inner key_of_def
      split: sum.splits) blast

lemma set_tl_subset: "set (tl xs) \<subseteq> set xs"
  by (cases xs) auto

lemma only_source_process_event:
  assumes "filter_app st = Some S" "S \<noteq> []" "only_source S st"
  shows "only_source S (snd (process_event st e))"
proof (cases "pause st")
  case True
  then show ?thesis using assms by (simp add: process_event_def)
next
  case np: False
  show ?thesis
  proof (cases "filter_drops (filter_app st) (str ''app'') e = Inr False")
    case False
    then show ?thesis using assms np
      by (cases "filter_drops (filter_app st) (str ''app'') e")
         (auto simp: process_event_def)
  next
    case True
    then have fs: "from_source S e"
      using assms(1,2)
      by (auto simp: filter_drops_def from_source_def split: sum.splits if_splits)
    then obtain kvs where e: "e = JObj kvs" and app: "map_of kvs (str ''app'') = Some (JStr S)"
      by (cases e) (auto simp: from_source_def)
    show ?thesis
    proof (cases "filter_drops (filter_type st) (str ''event_type'') e = Inr False")
      case False
      then show ?thesis using assms np True
        by (cases "filter_drops (filter_type st) (str ''event_type'') e")
           (auto simp: process_event_def)
    next
      case t2: True
      obtain x s a where u: "update_counters e (stats st, agent_stats st) = (x, s, a)"
        by (cases "update_counters e (stats st, agent_stats st)")
      have k: "fst ` set a \<subseteq> {KStr S}"
        using update_counters_keys [of kvs "stats st" "agent_stats st"] u e app assms(3)
        by (auto simp: only_source_def field_def key_of_def)
      have t: "set (tl (events st @ [e])) \<subseteq> insert e (set (events st))"
        using set_tl_subset [of "events st @ [e]"] by auto
      show ?thesis
        using assms(3) np True t2 u k fs t
        by (cases x) (auto simp: process_event_def only_source_def Let_def)
    qed
  qed
qed

lemma only_source_process_events:
  assumes "filter_app st = Some S" "S \<noteq> []" "only_source S st"
  shows "only_source S (snd (process_events st es))"
  using assms(1,3)
proof (induction es arbitrary: st)
  case Nil
  then show ?case by simp
next
  case (Cons e es)
  obtain x st' where pe: "process_event st e = (x, st')" by (cases "process_event st e")
  have f: "filter_app st' = Some S" using filter_app_process_event [of st e] pe Cons.prems by simp
  have o: "only_source S st'"
    using only_source_process_event [OF Cons.prems(1) assms(2) Cons.prems(2), of e] pe by simp
  show ?case using pe o Cons.IH [OF f o] by (cases x) simp_all
qed

lemma only_source_process_batches:
  assumes "filter_app st = Some S" "S \<noteq> []" "only_source S st"
  shows "only_source S (process_batches st bss)"
  using assms(1,3)
proof (induction bss arbitrary: st)
  case Nil
  then show ?case by simp
next
  case (Cons b bss)
  have f: "filter_app (snd (process_events st b)) = Some S"
    using filter_app_process_events [of st b] Cons.prems by simp
  have o: "only_source S (snd (process_events st b))"
    using only_source_process_events [OF Cons.prems(1) assms(2) Cons.prems(2)] .
  show ?case using Cons.IH [OF f o] by simp
qed

lemma only_source_excludes:
  assumes "only_source S st" "T \<noteq> S"
  shows "KStr T \<notin> fst ` set (agent_stats st)
       \<and> (\<forall>e\<in>set (events st). \<not> from_source T e)
       \<and> (\<forall>e\<in>set (event_queue st). \<not> from_source T e)"
  using assms by (auto simp: only_source_def from_source_def)

text \<open>
  C2. The stream is started with the source filter \<open>S\<close>, a non-empty string (an empty
  one is no filter to Python), and any category filter. Whatever batches of events it
  then processes, the events of another source \<open>T\<close> leave no trace: the state is the
  one that the same batches without these events give, so no counter counts them; the
  agent counters have no entry for \<open>T\<close>; the recent events and the display queue hold
  no event of \<open>T\<close>. And a filter that is absent drops no event.
\<close>

theorem source_filter_excludes_others:
  assumes "S \<noteq> []" "T \<noteq> S"
  shows "process_batches (start_stream url (Some S) ft) bss =
           process_batches (start_stream url (Some S) ft)
             (map (filter (\<lambda>e. \<not> from_source T e)) bss)
       \<and> KStr T \<notin> fst ` set (agent_stats (process_batches (start_stream url (Some S) ft) bss))
       \<and> (\<forall>e\<in>set (events (process_batches (start_stream url (Some S) ft) bss)).
             \<not> from_source T e)
       \<and> (\<forall>e\<in>set (event_queue (process_batches (start_stream url (Some S) ft) bss)).
             \<not> from_source T e)
       \<and> filter_drops None k e = Inr False"
proof -
  have f: "filter_app (start_stream url (Some S) ft) = Some S"
    by (simp add: start_stream_def)
  have o: "only_source S (start_stream url (Some S) ft)"
    by (simp add: start_stream_def new_stream_def only_source_def)
  have a: "process_batches (start_stream url (Some S) ft) bss =
           process_batches (start_stream url (Some S) ft)
             (map (filter (\<lambda>e. \<not> from_source T e)) bss)"
    by (rule process_batches_without [OF f assms])
  have b: "only_source S (process_batches (start_stream url (Some S) ft) bss)"
    by (rule only_source_process_batches [OF f assms(1) o])
  have c: "filter_drops None k e = Inr False"
    by (simp add: filter_drops_def)
  from a only_source_excludes [OF b assms(2)] c show ?thesis
    by blast
qed

theorem source_filter_excludes_others_witness:
  "str ''A'' \<noteq> [] \<and> str ''B'' \<noteq> str ''A''
   \<and> from_source (str ''B'') event_B
   \<and> stats (process_batches (start_stream [] (Some (str ''A'')) None) [[event_A, event_B, event_A]])
       = [(KStr (str ''total''), 2), (KStr (str ''tool_use''), 2)]
   \<and> agent_stats (process_batches (start_stream [] (Some (str ''A'')) None) [[event_A, event_B, event_A]])
       = [(KStr (str ''A''), [(KStr (str ''unknown''), 2)])]
   \<and> events (process_batches (start_stream [] (Some (str ''A'')) None) [[event_A, event_B, event_A]])
       = [event_A, event_A]"
  using source_filter_excludes_others [of "str ''A''" "str ''B''" "[]" None
      "[[event_A, event_B, event_A]]"]
  by (simp add: start_stream_def new_stream_def process_event_def filter_drops_def
      update_counters_def field_def Let_def event_A_def event_B_def from_source_def)

subsection \<open>The window of recent events\<close>

lemma window_step:
  assumes "length xs \<le> 1000"
  shows "(if length xs \<ge> 1000 then tl (xs @ [e]) else xs @ [e])
           = drop (length (xs @ [e]) - 1000) (xs @ [e])"
proof (cases "length xs = 1000")
  case True
  then have "xs \<noteq> []" by auto
  then show ?thesis using True by (simp add: drop_Suc tl_append2)
next
  case False
  then show ?thesis using assms by simp
qed

lemma window_compose:
  "drop (length (drop (length (xs @ [e]) - 1000) (xs @ [e]) @ es) - 1000)
        (drop (length (xs @ [e]) - 1000) (xs @ [e]) @ es)
     = drop (length (xs @ e # es) - 1000) (xs @ e # es)"
proof -
  let ?k = "length (xs @ [e]) - 1000"
  have "drop (length (drop ?k (xs @ [e]) @ es) - 1000) (drop ?k (xs @ [e]) @ es)
      = drop (length (drop ?k (xs @ [e]) @ es) - 1000) (drop ?k ((xs @ [e]) @ es))"
    by simp
  also have "\<dots> = drop (length (drop ?k (xs @ [e]) @ es) - 1000 + ?k) ((xs @ [e]) @ es)"
    by (simp only: drop_drop)
  also have "length (drop ?k (xs @ [e]) @ es) - 1000 + ?k = length (xs @ e # es) - 1000"
    by simp
  finally show ?thesis by simp
qed

lemma process_events_countable:
  assumes "\<not> pause st" "filter_app st = None" "filter_type st = None"
    and "\<forall>e\<in>set es. countable_event e" "length (events st) \<le> 1000"
  shows "fst (process_events st es) = None
       \<and> events (snd (process_events st es))
           = drop (length (events st @ es) - 1000) (events st @ es)
       \<and> event_queue (snd (process_events st es)) = event_queue st @ es
       \<and> total_count (stats (snd (process_events st es)))
           = total_count (stats st) + length es
             + length (filter (\<lambda>e. category_key e = KStr (str ''total'')) es)"
  using assms
proof (induction es arbitrary: st)
  case Nil
  then show ?case by simp
next
  case (Cons e es)
  from Cons.prems(4) obtain kvs where e: "e = JObj kvs" and ce: "countable_event (JObj kvs)"
    by (cases e) auto
  let ?st = "snd (process_event st e)"
  note pe = process_event_countable [OF Cons.prems(1,2,3) ce]
  have ev: "events ?st = drop (length (events st @ [e]) - 1000) (events st @ [e])"
    unfolding e pe using window_step [OF Cons.prems(5), of "JObj kvs"] by simp
  have p: "\<not> pause ?st" "filter_app ?st = None" "filter_type ?st = None"
    unfolding e pe using Cons.prems(1,2,3) by simp_all
  have len: "length (events ?st) \<le> 1000"
    unfolding ev by simp
  have q: "event_queue ?st = event_queue st @ [e]"
    unfolding e pe by simp
  have t: "total_count (stats ?st) = total_count (stats st) + 1
             + (if category_key e = KStr (str ''total'') then 1 else 0)"
    unfolding e pe by (simp add: total_count_bump category_key_def)
  have all: "\<forall>e\<in>set es. countable_event e" using Cons.prems(4) by simp
  note ih = Cons.IH [OF p all len]
  have step: "process_events st (e # es) = process_events ?st es"
    using pe e by simp
  show ?case
    unfolding step
    using ih ev q t window_compose [of "events st" e es]
    by simp
qed

lemma string_payload_raises:
  "update_counters string_payload_event (s, a) =
     (Some AttributeError, bump (KStr (str ''unknown'')) (bump (KStr (str ''total'')) s), a)"
  by (simp add: update_counters_def string_payload_event_def field_def Let_def
      dict_get_default_def)

lemma c_running_on_frame: "c_running (on_frame cs f) = c_running cs"
  by (simp add: on_frame_def Let_def split: frame.splits sum.splits prod.splits option.splits)

lemma c_receive_string_payloads:
  assumes "c_running cs"
  shows "c_events (c_receive cs (replicate n (Parsed (event_msg string_payload_event))))
           = c_events cs @ replicate n string_payload_event"
  using assms
proof (induction n arbitrary: cs)
  case 0
  show ?case by simp
next
  case (Suc n)
  let ?cs = "on_frame cs (Parsed (event_msg string_payload_event))"
  have r: "c_running ?cs" using Suc.prems by (simp add: c_running_on_frame)
  have e: "c_events ?cs = c_events cs @ [string_payload_event]"
    by (simp add: on_frame_event_msg string_payload_raises)
  show ?case
    using Suc.prems Suc.IH [OF r] e
    by (simp add: replicate_app_Cons_same)
qed

lemma total_events_counted_twice:
  "total_count (stats (snd (process_events (new_stream []) (replicate n total_event)))) = 2 * n
   \<and> events (snd (process_events (new_stream []) (replicate n total_event)))
       = replicate (min n 1000) total_event"
proof -
  have c: "\<forall>e\<in>set (replicate n total_event). countable_event e"
    by (simp add: total_event_def hashable_def field_def)
  have k: "category_key total_event = KStr (str ''total'')"
    by (simp add: category_key_def total_event_def field_def key_of_def)
  have "drop (n - 1000) (replicate n total_event) = replicate (min n 1000) total_event"
    by (simp add: min_def)
  then show ?thesis
    using process_events_countable [of "new_stream []" "replicate n total_event", OF _ _ _ c] k
    by (simp add: new_stream_def total_count_def count_of_def)
qed

text \<open>
  Where no event has the category \<^verbatim>\<open>total\<close>, the append-log viewer keeps the last
  1000 of the events it accepted and its total is their number.
\<close>

lemma window_and_total_without_collision:
  assumes "\<forall>e\<in>set es. countable_event e \<and> category_key e \<noteq> KStr (str ''total'')"
  shows "events (snd (process_events (new_stream url) es)) = drop (length es - 1000) es
       \<and> total_count (stats (snd (process_events (new_stream url) es))) = length es"
proof -
  have c: "\<forall>e\<in>set es. countable_event e" using assms by simp
  have f: "filter (\<lambda>e. category_key e = KStr (str ''total'')) es = []"
    using assms by (simp add: filter_empty_conv)
  show ?thesis
    using process_events_countable [of "new_stream url" es, OF _ _ _ c] f
    by (simp add: new_stream_def total_count_def count_of_def)
qed

text \<open>
  C1. After N accepted events, more than the window holds, the total should be N and the
  recent events the last ones, 1000 or 500 of them. In the append-log viewer 1001 events
  of the category \<^verbatim>\<open>total\<close> give the total 2002: the category is counted under the
  key of the total. In the dashboard viewer 501 events whose payload is a string leave
  501 recent events: \<^verbatim>\<open>update_stats\<close> raises after the event is appended, and the
  bare \<^verbatim>\<open>except\<close> skips the eviction.
\<close>

theorem total_and_window_diverge:
  "total_count (stats (snd (process_events (new_stream []) (replicate 1001 total_event)))) = 2002
   \<and> length (c_events (c_receive (new_curses_stream [])
        (replicate 501 (Parsed (event_msg string_payload_event))))) = 501"
proof -
  have r: "c_running (new_curses_stream [])" by (simp add: new_curses_stream_def)
  show ?thesis
    using total_events_counted_twice [of 1001] c_receive_string_payloads [OF r, of 501]
    by (simp add: new_curses_stream_def)
qed

subsection \<open>Colours and glyphs\<close>

text \<open>
  A hashable value is looked up without an exception, and a string that is not a key of
  the table gives the default.
\<close>

lemma table_get_hashable:
  assumes "hashable k"
  shows "\<exists>v. table_get tbl k d = Inr v"
  using assms by (cases k) (simp_all add: table_get_def hashable_def)

lemma table_get_unknown_string:
  assumes "s \<notin> fst ` set tbl"
  shows "table_get tbl (JStr s) d = Inr d"
proof -
  have "map_of tbl s = None" using assms by (simp add: map_of_eq_None_iff)
  then show ?thesis by (simp add: table_get_def)
qed

text \<open>
  C8. A category or agent type that the tables do not have should never make the
  formatting or the drawing raise. A value that is a list is not in the tables, and
  \<^verbatim>\<open>dict.get\<close> raises \<^verbatim>\<open>TypeError\<close> on it, in \<^verbatim>\<open>format_event\<close> and in
  \<^verbatim>\<open>draw_ui\<close>; the dashboard has the event among its events, and on a window of
  24 rows and 80 columns the redraw ends before \<^verbatim>\<open>refresh\<close>.
\<close>

theorem unhashable_key_raises:
  "format_event sample_clock sample_py_str (new_stream []) list_agent_event = Inl TypeError
   \<and> format_event sample_clock sample_py_str (new_stream []) list_category_event = Inl TypeError
   \<and> snd (draw_ui sample_clock sample_py_str 24 80
         (c_receive (new_curses_stream []) [Parsed (event_msg list_agent_event)])) = Inl TypeError
   \<and> snd (draw_ui sample_clock sample_py_str 24 80
         (c_receive (new_curses_stream []) [Parsed (event_msg list_category_event)])) = Inl TypeError"
proof -
  have a: "format_event sample_clock sample_py_str (new_stream []) list_agent_event = Inl TypeError"
    by (simp add: format_event_def list_agent_event_def field_def fromisoformat_def
        sample_clock_def table_get_def)
  have b: "format_event sample_clock sample_py_str (new_stream []) list_category_event = Inl TypeError"
    by (simp add: format_event_def list_category_event_def field_def fromisoformat_def
        sample_clock_def table_get_def AGENT_COLORS_def)
  have c1: "c_events (c_receive (new_curses_stream []) [Parsed (event_msg list_agent_event)])
              = [list_agent_event]"
    by (simp add: on_frame_event_msg new_curses_stream_def split: prod.splits option.splits)
  have c2: "c_events (c_receive (new_curses_stream []) [Parsed (event_msg list_category_event)])
              = [list_category_event]"
    by (simp add: on_frame_event_msg new_curses_stream_def split: prod.splits option.splits)
  have d1: "draw_line sample_clock sample_py_str 80 list_agent_event = Inl TypeError"
    by (simp add: draw_line_def line_head_def list_agent_event_def field_def fromisoformat_def
        sample_clock_def table_get_def add_summary_def)
  have d2: "draw_line sample_clock sample_py_str 80 list_category_event = Inl TypeError"
    by (simp add: draw_line_def line_head_def list_category_event_def field_def fromisoformat_def
        sample_clock_def table_get_def add_summary_def)
  have e1: "snd (draw_ui sample_clock sample_py_str 24 80
         (c_receive (new_curses_stream []) [Parsed (event_msg list_agent_event)])) = Inl TypeError"
    using c1 d1
    by (simp add: draw_ui_def addstr_def header_def Let_def py_drop_def del: c_receive.simps)
  have e2: "snd (draw_ui sample_clock sample_py_str 24 80
         (c_receive (new_curses_stream []) [Parsed (event_msg list_category_event)])) = Inl TypeError"
    using c2 d2
    by (simp add: draw_ui_def addstr_def header_def Let_def py_drop_def del: c_receive.simps)
  from a b e1 e2 show ?thesis by blast
qed

subsection \<open>De-duplication in the polling viewer\<close>

lemma display_sample_event:
  "display_event sample_clock sample_py_str sample_json_loads (new_simple_stream [], []) sample_event =
     (None,
      (new_simple_stream [])\<lparr>s_stats := [(KStr (str ''total''), 1), (KStr (str ''unknown''), 1)]\<rparr>,
      [(Stdout, Line (DIM @ str ''12:00:00'' @ RESET_COLOR @ str '' '' @ default_color @ BOLD
          @ str ''[unknown]'' @ RESET_COLOR @ str '' unknown''))])"
  by (simp add: display_event_def display_fields_def sample_event_def field_def fromisoformat_def
      sample_clock_def decode_payload_def table_get_def COLORS_def to_str_def new_simple_stream_def
      str_def Let_def)

text \<open>
  C6. An event without identifier should never be taken for a duplicate. The first such
  event puts \<^verbatim>\<open>None\<close> into the set of seen identifiers, and the next one, whatever
  it says, is skipped: of a batch of two events without \<^verbatim>\<open>id\<close> one line is printed
  and one event counted.
\<close>

theorem second_event_without_id_is_skipped:
  "poll_events sample_clock sample_py_str sample_json_loads sample_pop
     (new_simple_stream [], [], []) [JArr [sample_event, other_event]] =
     ((new_simple_stream [])\<lparr>s_stats := [(KStr (str ''total''), 1), (KStr (str ''unknown''), 1)]\<rparr>,
      [KNone],
      [(Stdout, Line (DIM @ str ''12:00:00'' @ RESET_COLOR @ str '' '' @ default_color @ BOLD
          @ str ''[unknown]'' @ RESET_COLOR @ str '' unknown''))])"
proof -
  have i1: "dict_get sample_event (str ''id'') = Inr None"
    by (simp add: sample_event_def)
  have i2: "dict_get other_event (str ''id'') = Inr None"
    by (simp add: other_event_def)
  have r: "s_running (new_simple_stream [])"
    by (simp add: new_simple_stream_def)
  show ?thesis
    using i1 i2 r display_sample_event
    by simp
qed

subsection \<open>The lines of the dashboard\<close>

lemma fit_length:
  assumes "4 \<le> width"
  shows "int (length (fit width line)) \<le> width - 1"
  using assms by (auto simp: fit_def py_take_def)

lemma fit_cut: "fit width line = line \<or> suffix (str ''...'') (fit width line)"
  by (simp add: fit_def suffix_def)

lemma add_summary_cut:
  assumes "add_summary py_str width line summary = Inr l"
  shows "l = (if truthy summary then line @ str '' - '' @ to_str py_str summary else line)
       \<or> suffix (str ''...'') l"
proof (cases "truthy summary")
  case False
  then show ?thesis using assms by (simp add: add_summary_def)
next
  case True
  obtain n where n: "py_len summary = Inr n"
    using assms True by (cases "py_len summary") (simp_all add: add_summary_def)
  show ?thesis
  proof (cases "int n > width - int (length line) - 3")
    case False
    then show ?thesis using assms True n by (simp add: add_summary_def Let_def)
  next
    case cut: True
    obtain c where c: "slice_to (width - int (length line) - 3 - 3) summary = Inr c"
      using assms True n cut
      by (cases "slice_to (width - int (length line) - 3 - 3) summary")
         (simp_all add: add_summary_def Let_def)
    obtain s where s: "py_add_str c (str ''...'') = Inr s"
      using assms True n cut c
      by (cases "py_add_str c (str ''...'')") (simp_all add: add_summary_def Let_def)
    obtain t where t: "s = JStr (t @ str ''...'')"
      using s by (cases c) auto
    have "l = line @ str '' - '' @ t @ str ''...''"
      using assms True n cut c s t by (simp add: add_summary_def Let_def to_str_def)
    then show ?thesis by (simp add: suffix_def)
  qed
qed

lemma draw_line_fits:
  assumes "draw_line clock py_str width event = Inr (l, n)"
  shows "(4 \<le> width \<longrightarrow> int (length l) \<le> width - 1)
       \<and> (uncut_line clock py_str event = Inr l \<or> suffix (str ''...'') l)"
proof -
  obtain l0 where l0: "line_head clock py_str event = Inr l0"
    using assms by (cases "line_head clock py_str event") (simp_all add: draw_line_def)
  obtain sm where sm: "dict_get_default event (str ''summary'') (JStr []) = Inr sm"
    using assms l0
    by (cases "dict_get_default event (str ''summary'') (JStr [])") (simp_all add: draw_line_def)
  obtain l1 where l1: "add_summary py_str width l0 sm = Inr l1"
    using assms l0 sm
    by (cases "add_summary py_str width l0 sm") (simp_all add: draw_line_def)
  have l: "l = fit width l1"
    using assms l0 sm l1
    by (auto simp: draw_line_def bind_exn_def split: sum.splits)
  have u: "uncut_line clock py_str event
             = Inr (if truthy sm then l0 @ str '' - '' @ to_str py_str sm else l0)"
    using l0 sm by (simp add: uncut_line_def)
  show ?thesis
    using fit_length [of width l1] fit_cut [of width l1] add_summary_cut [OF l1] l u
    by auto
qed

lemma draw_events_calls:
  assumes "draw_events clock py_str height width y es calls = Inr calls'"
    and "c \<in> set calls'"
  shows "c \<in> set calls
       \<or> (\<exists>e\<in>set es. \<exists>l n y'. draw_line clock py_str width e = Inr (l, n)
              \<and> c = (y', 0, l, COLOR_PAIR n))"
  using assms
proof (induction es arbitrary: y calls)
  case Nil
  then show ?case by simp
next
  case (Cons e es)
  show ?case
  proof (cases "y \<ge> height - 3")
    case True
    then show ?thesis using Cons.prems by simp
  next
    case False
    obtain l n where d: "draw_line clock py_str width e = Inr (l, n)"
      using Cons.prems(1) False
      by (cases "draw_line clock py_str width e") auto
    obtain calls1 where a: "addstr height width (y, 0, l, COLOR_PAIR n) calls = Inr calls1"
      using Cons.prems(1) False d
      by (cases "addstr height width (y, 0, l, COLOR_PAIR n) calls") auto
    have c1: "calls1 = calls @ [(y, 0, l, COLOR_PAIR n)]"
      using a by (auto simp: addstr_def split: if_splits)
    have r: "draw_events clock py_str height width (y + 1) es calls1 = Inr calls'"
      using Cons.prems(1) False d a by simp
    from Cons.IH [OF r Cons.prems(2)] show ?thesis
      using c1 d by auto
  qed
qed

lemma set_py_drop: "set (py_drop n xs) \<subseteq> set xs"
  by (auto simp: py_drop_def dest: in_set_dropD)

lemma rows_between:
  assumes "bind_exn (addstr height width (1, 0, sl, A_NORMAL) [(0, x0, header, A_BOLD)]) (\<lambda>calls1.
           bind_exn (draw_events clock py_str height width 3 vis calls1) (\<lambda>calls2.
           addstr height width (height - 1, 0, footer, A_DIM) calls2)) = Inr calls"
    and "(y, x, line, a) \<in> set calls" "3 \<le> y" "y < height - 3"
  shows "\<exists>e\<in>set vis. \<exists>n. draw_line clock py_str width e = Inr (line, n)"
proof -
  let ?c0 = "[(0, x0, header, A_BOLD)]"
  obtain calls1 where s1: "addstr height width (1, 0, sl, A_NORMAL) ?c0 = Inr calls1"
    using assms(1) by (cases "addstr height width (1, 0, sl, A_NORMAL) ?c0") auto
  have c1: "calls1 = ?c0 @ [(1, 0, sl, A_NORMAL)]"
    using s1 by (auto simp: addstr_def split: if_splits)
  obtain calls2 where s2: "draw_events clock py_str height width 3 vis calls1 = Inr calls2"
    using assms(1) s1 by (cases "draw_events clock py_str height width 3 vis calls1") auto
  have s3: "addstr height width (height - 1, 0, footer, A_DIM) calls2 = Inr calls"
    using assms(1) s1 s2 by simp
  have c3: "calls = calls2 @ [(height - 1, 0, footer, A_DIM)]"
    using s3 by (auto simp: addstr_def split: if_splits)
  have "(y, x, line, a) \<in> set calls2"
    using assms(2,4) c3 by auto
  from draw_events_calls [OF s2 this]
  have "\<exists>e\<in>set vis. \<exists>l n y'. draw_line clock py_str width e = Inr (l, n)
          \<and> (y, x, line, a) = (y', 0, l, COLOR_PAIR n)"
    using c1 assms(3) by auto
  then show ?thesis by auto
qed

lemma draw_ui_rows:
  assumes "draw_ui clock py_str height width cs = (cs', Inr calls)"
    and "(y, x, line, a) \<in> set calls" "3 \<le> y" "y < height - 3"
  shows "28 \<le> width
       \<and> (\<exists>e\<in>set (c_events cs). \<exists>n. draw_line clock py_str width e = Inr (line, n))"
proof -
  let ?h = "(0, (width - int (length header)) div 2, header, A_BOLD)"
  obtain calls0 where h: "addstr height width ?h [] = Inr calls0"
    using assms(1) by (cases "addstr height width ?h []") (auto simp: draw_ui_def)
  have w: "28 \<le> width" and c0: "calls0 = [?h]"
    using h by (auto simp: addstr_def header_def split: if_splits)
  define sl where "sl = str ''Total: ''
      @ dec (total_count (read_counter (KStr (str ''total'')) (c_stats cs))) @ str '' | ''
      @ str ''Agents: '' @ dec (length (c_agent_stats cs)) @ str '' | ''
      @ (if c_pause cs then str ''PAUSED'' else [])"
  define vis where "vis = py_drop (- (height - 3 - 3)) (c_events cs)"
  have r: "bind_exn (addstr height width (1, 0, sl, A_NORMAL) [?h]) (\<lambda>calls1.
           bind_exn (draw_events clock py_str height width 3 vis calls1) (\<lambda>calls2.
           addstr height width (height - 1, 0, footer, A_DIM) calls2)) = Inr calls"
    using assms(1) h c0 unfolding sl_def vis_def
    by (auto simp: draw_ui_def Let_def)
  from rows_between [OF r assms(2,3,4)]
  obtain e n where e: "e \<in> set vis" "draw_line clock py_str width e = Inr (line, n)"
    by auto
  have "e \<in> set (c_events cs)"
    using e(1) set_py_drop [of "- (height - 3 - 3)" "c_events cs"] by (auto simp: vis_def)
  then show ?thesis using w e(2) by blast
qed

text \<open>
  C9. Whatever the events, the height and the width of the window, a line that a redraw
  of the dashboard puts on a row of the event pane is the line of one of the events, it
  is at most \<open>width - 1\<close> long, and where it is not the whole line of that event it
  ends with the ellipsis. (On a window of fewer than 28 columns the header cannot be
  placed and the redraw ends before any line is drawn.)
\<close>

theorem drawn_line_fits:
  assumes "draw_ui clock py_str height width cs = (cs', Inr calls)"
    and "(y, x, line, a) \<in> set calls" "3 \<le> y" "y < height - 3"
  shows "int (length line) \<le> width - 1
       \<and> (\<exists>event\<in>set (c_events cs). \<exists>n.
             draw_line clock py_str width event = Inr (line, n)
             \<and> (uncut_line clock py_str event = Inr line \<or> suffix (str ''...'') line))"
proof -
  from draw_ui_rows [OF assms] obtain e n
    where w: "28 \<le> width" and e: "e \<in> set (c_events cs)"
      and d: "draw_line clock py_str width e = Inr (line, n)"
    by blast
  from draw_line_fits [OF d] w e d show ?thesis by auto
qed

lemma long_line:
  "draw_line sample_clock sample_py_str 80 long_event =
     Inr (str ''12:00:00 [unknown] '' @ default_icon @ str '' unknown - ''
                  @ replicate 43 120 @ str ''...'', 7)"
  by (simp add: draw_line_def line_head_def long_event_def field_def fromisoformat_def
      sample_clock_def table_get_def add_summary_def fit_def py_take_def to_str_def
      EVENT_TYPE_ICONS_def color_map_def default_icon_def str_def Let_def)

lemma long_dashboard_eq:
  "long_dashboard = (new_curses_stream [])
     \<lparr>c_events := [long_event],
      c_stats := [(KStr (str ''total''), 1), (KStr (str ''unknown''), 1)],
      c_agent_stats := [(KStr (str ''unknown''), [(KStr (str ''unknown''), 1)])]\<rparr>"
  by (simp add: long_dashboard_def on_frame_event_msg update_counters_def long_event_def
      field_def Let_def new_curses_stream_def)

lemma length_header: "length header = 28"
  by (simp add: header_def)

lemma dec_Suc_0: "dec (Suc 0) = [49]"
  by (simp add: dec.simps)

lemma long_dashboard_drawn:
  "draw_ui sample_clock sample_py_str 24 80 long_dashboard =
     (long_dashboard,
      Inr [(0, 26, header, A_BOLD),
           (1, 0, str ''Total: 1 | Agents: 1 | '', A_NORMAL),
           (3, 0, str ''12:00:00 [unknown] '' @ default_icon @ str '' unknown - ''
                  @ replicate 43 120 @ str ''...'', COLOR_PAIR 7),
           (23, 0, footer, A_DIM)])"
  unfolding long_dashboard_eq
  by (simp add: draw_ui_def addstr_def Let_def py_drop_def long_line read_counter_def
      total_count_def count_of_def new_curses_stream_def dec_Suc_0 length_header str_def)


theorem drawn_line_fits_witness:
  "snd (draw_ui sample_clock sample_py_str 24 80 long_dashboard) =
     Inr [(0, 26, header, A_BOLD),
          (1, 0, str ''Total: 1 | Agents: 1 | '', A_NORMAL),
          (3, 0, str ''12:00:00 [unknown] '' @ default_icon @ str '' unknown - ''
                 @ replicate 43 120 @ str ''...'', COLOR_PAIR 7),
          (23, 0, footer, A_DIM)]
   \<and> int (length (str ''12:00:00 [unknown] '' @ default_icon @ str '' unknown - ''
                 @ replicate 43 120 @ str ''...'')) \<le> 80 - 1
   \<and> suffix (str ''...'') (str ''12:00:00 [unknown] '' @ default_icon @ str '' unknown - ''
                 @ replicate 43 120 @ str ''...'')"
  using drawn_line_fits [OF long_dashboard_drawn, of 3 0
      "str ''12:00:00 [unknown] '' @ default_icon @ str '' unknown - ''
         @ replicate 43 120 @ str ''...''" "COLOR_PAIR 7"]
    long_dashboard_drawn
  by (simp add: default_icon_def suffix_def)

subsection \<open>The three tallies\<close>

lemma category_sum_bump:
  "category_sum (bump k d) = category_sum d + (if k = KStr (str ''total'') then 0 else 1)"
  by (induction d) (auto simp: category_sum_def)

lemma sum_bump: "sum_list (map snd (bump t d)) = sum_list (map snd d) + 1"
  by (induction d) auto

lemma agent_sum_touch: "agent_sum (touch a m) = agent_sum m"
  by (induction m) (auto simp: agent_sum_def)

lemma agent_sum_bump_inner:
  "a \<in> fst ` set m \<Longrightarrow> agent_sum (bump_inner a t m) = agent_sum m + 1"
  by (induction m) (force simp: agent_sum_def sum_bump)+

lemma process_events_tallies:
  assumes "\<not> pause st" "filter_app st = None" "filter_type st = None"
    and "\<forall>e\<in>set es. countable_event e"
  shows "category_sum (stats (snd (process_events st es)))
           = category_sum (stats st)
             + length (filter (\<lambda>e. category_key e \<noteq> KStr (str ''total'')) es)
       \<and> agent_sum (agent_stats (snd (process_events st es))) = agent_sum (agent_stats st) + length es"
  using assms
proof (induction es arbitrary: st)
  case Nil
  then show ?case by simp
next
  case (Cons e es)
  from Cons.prems(4) obtain kvs where e: "e = JObj kvs" and ce: "countable_event (JObj kvs)"
    by (cases e) auto
  let ?st = "snd (process_event st e)"
  note pe = process_event_countable [OF Cons.prems(1,2,3) ce]
  have p: "\<not> pause ?st" "filter_app ?st = None" "filter_type ?st = None"
    unfolding e pe using Cons.prems(1,2,3) by simp_all
  have c: "category_sum (stats ?st) = category_sum (stats st)
             + (if category_key e = KStr (str ''total'') then 0 else 1)"
    unfolding e pe by (simp add: category_sum_bump category_key_def)
  have a: "agent_sum (agent_stats ?st) = agent_sum (agent_stats st) + 1"
    unfolding e pe by (simp add: agent_sum_bump_inner agent_sum_touch keys_touch)
  have all: "\<forall>e\<in>set es. countable_event e" using Cons.prems(4) by simp
  note ih = Cons.IH [OF p all]
  have step: "process_events st (e # es) = process_events ?st es"
    using pe e by simp
  show ?case
    unfolding step using ih c a by simp
qed

text \<open>
  Where every event can be counted and none has the category \<^verbatim>\<open>total\<close>, the three
  tallies agree: each is the number of the events.
\<close>

lemma tallies_agree_without_collision:
  assumes "\<forall>e\<in>set es. countable_event e \<and> category_key e \<noteq> KStr (str ''total'')"
  shows "total_count (stats (snd (process_events (new_stream url) es))) = length es
       \<and> category_sum (stats (snd (process_events (new_stream url) es))) = length es
       \<and> agent_sum (agent_stats (snd (process_events (new_stream url) es))) = length es"
proof -
  have c: "\<forall>e\<in>set es. countable_event e" using assms by simp
  have f: "filter (\<lambda>e. category_key e \<noteq> KStr (str ''total'')) es = es"
    using assms by (simp add: filter_id_conv)
  show ?thesis
    using process_events_tallies [of "new_stream url" es, OF _ _ _ c] f
      window_and_total_without_collision [OF assms, of url]
    by (simp add: new_stream_def category_sum_def agent_sum_def)
qed

text \<open>
  C10. From the empty state the total, the sum of the per-category counts and the sum of
  the per-agent counts should stay equal. On the single event
  \<^verbatim>\<open>{"event_type": "total"}\<close> the category is counted under the key of the total:
  the total is 2, the categories sum to 0 and the agents to 1.
\<close>

theorem tallies_diverge_on_category_total:
  "fst (process_event (new_stream []) total_event) = None
   \<and> total_count (stats (snd (process_event (new_stream []) total_event))) = 2
   \<and> category_sum (stats (snd (process_event (new_stream []) total_event))) = 0
   \<and> agent_sum (agent_stats (snd (process_event (new_stream []) total_event))) = 1"
  by (simp add: process_event_def new_stream_def filter_drops_def update_counters_def
      field_def total_event_def total_count_def category_sum_def agent_sum_def count_of_def
      Let_def)


text \<open>
  The cut itself needs four columns: on a width of 3 the slice \<^verbatim>\<open>line[:width-4]\<close>
  drops one character from the end and the line gets longer. No redraw comes that far,
  as \<open>draw_ui_rows\<close> shows.
\<close>

lemma fit_narrow: "fit 3 (str ''abcd'') = str ''abc...''"
  by (simp add: fit_def py_take_def str_def)

end
